theory Spec2Isabelle
  imports Main "HOL-Library.Word"
begin

section \<open>libcamera-motionvid: the motion-triggered recording controller\<close>

text \<open>
  A shallow embedding of \<^verbatim>\<open>src/apps/libcamera_motionvid.cpp\<close>: the frame buffer queue of
  \<^verbatim>\<open>LibcameraMotionDetectApp\<close>, \<^verbatim>\<open>get_key_or_signal\<close>, \<^verbatim>\<open>get_colourspace_flags\<close>,
  \<^verbatim>\<open>event_loop\<close> and \<^verbatim>\<open>main\<close>. Calls into the camera, encoder and output subsystems are
  recorded as a trace of events; what the loop reads from the outside world on one iteration
  (the message returned by \<^verbatim>\<open>Wait()\<close>, the polled key, the pending signal, the clock, the
  frame's metadata) is one \<open>tick\<close> of input.
\<close>

subsection \<open>Failures\<close>

datatype failure =
    RuntimeError string    \<comment> \<open>\<^verbatim>\<open>throw std::runtime_error(msg)\<close>\<close>
  | AssertionFailed        \<comment> \<open>a failed \<^verbatim>\<open>assert\<close>\<close>
  | OutOfBounds            \<comment> \<open>a write past the end of the \<^verbatim>\<open>frames\<close> array (undefined behaviour)\<close>

subsection \<open>The frame buffer queue\<close>

text \<open>
  \<^verbatim>\<open>std::queue<CompletedRequestPtr> encode_buffer_queue_\<close>: the head of the list is the front
  of the queue. Each operation holds \<^verbatim>\<open>encode_buffer_queue_mutex_\<close> for its whole access, so
  it is one atomic function on the queue.
\<close>

type_synonym 'r queue = "'r list"

definition queue_push :: "'r \<Rightarrow> 'r queue \<Rightarrow> 'r queue" where
  "queue_push r q = q @ [r]"

text \<open>
  \<^verbatim>\<open>EncodeBuffer\<close> (lines 74-89). \<open>has_encoder\<close> is \<^verbatim>\<open>encoder_\<close> being non-null, \<open>buffer_ok\<close>
  is \<^verbatim>\<open>buffer\<close> being non-null and \<open>mem_ok\<close> is \<^verbatim>\<open>mem\<close> being non-null.
\<close>

definition EncodeBuffer :: "bool \<Rightarrow> bool \<Rightarrow> bool \<Rightarrow> 'r \<Rightarrow> 'r queue \<Rightarrow> failure + 'r queue" where
  "EncodeBuffer has_encoder buffer_ok mem_ok completed_request q =
     (if \<not> has_encoder then Inl AssertionFailed
      else if \<not> buffer_ok \<or> \<not> mem_ok then Inl (RuntimeError ''no buffer to encode'')
      else Inr (queue_push completed_request q))"

text \<open>
  \<^verbatim>\<open>encodeBufferDone\<close> (lines 105-118). \<open>mem\<close> is the callback's argument, \<open>None\<close> for
  \<^verbatim>\<open>nullptr\<close>.
\<close>

definition encodeBufferDone :: "nat option \<Rightarrow> 'r queue \<Rightarrow> failure + 'r queue" where
  "encodeBufferDone mem q =
     (if mem \<noteq> None then Inl AssertionFailed
      else case q of
        [] \<Rightarrow> Inl (RuntimeError ''no buffer available to return'')
      | r # rest \<Rightarrow> Inr rest)"

subsection \<open>Options\<close>

text \<open>
  \<^verbatim>\<open>MotionDetectOptions\<close> (lines 29-53) adds \<^verbatim>\<open>minframes\<close>, \<^verbatim>\<open>gap\<close> (both
  \<^verbatim>\<open>unsigned int\<close>) and \<^verbatim>\<open>savedir\<close> to the inherited \<^verbatim>\<open>VideoOptions\<close>. Of the inherited
  fields the record holds those the event loop reads; their declarations are not part of this
  source file, so \<open>frames\<close> is taken as an \<^verbatim>\<open>unsigned int\<close> (it is compared with the
  \<^verbatim>\<open>unsigned int count\<close>) and \<open>timeout\<close> as a natural number of milliseconds.
  \<open>output_path\<close> is \<^verbatim>\<open>options->output\<close> as parsed; the loop assigns to that field, so its
  current value lives in the loop state below.
\<close>

record options =
  keypress :: bool
  signal :: bool
  verbose :: bool
  frames :: "32 word"
  timeout :: nat
  codec :: string
  output_path :: string
  minframes :: "32 word"
  gap :: "32 word"
  savedir :: string

subsection \<open>Keys and signals\<close>

text \<open>
  \<^verbatim>\<open>signal_received\<close> holds the number of the last signal delivered to
  \<^verbatim>\<open>default_signal_handler\<close>, which the loop installs for SIGUSR1 and SIGUSR2 only.
\<close>

datatype signal_number = NoSignal | SIGUSR1 | SIGUSR2

text \<open>
  \<^verbatim>\<open>get_key_or_signal\<close> (lines 134-157). \<open>poll_in\<close> is \<open>Some c\<close> when \<^verbatim>\<open>poll\<close> reports
  POLLIN on stdin, \<open>c\<close> being \<^verbatim>\<open>user_string[0]\<close> of the line read; \<open>sig\<close> is the value of
  \<^verbatim>\<open>signal_received\<close> at the call. With \<^verbatim>\<open>options->signal\<close> set the function resets
  \<^verbatim>\<open>signal_received\<close> to 0, so each call sees what the handler stored since the call
  before; without it the variable is never read. Keys are character codes: 10 is newline,
  120 is x, 88 is X.
\<close>

definition get_key_or_signal :: "options \<Rightarrow> int option \<Rightarrow> signal_number \<Rightarrow> int" where
  "get_key_or_signal opts poll_in sig =
     (let key = 0;
          key = (if keypress opts then (case poll_in of Some c \<Rightarrow> c | None \<Rightarrow> key) else key);
          key = (if signal opts
                 then (if sig = SIGUSR1 then 10 else if sig = SIGUSR2 then 120 else key)
                 else key)
      in key)"

text \<open>\<^verbatim>\<open>get_colourspace_flags\<close> (lines 159-165).\<close>

datatype colourspace_flags = FLAG_VIDEO_NONE | FLAG_VIDEO_JPEG_COLOURSPACE

definition get_colourspace_flags :: "string \<Rightarrow> colourspace_flags" where
  "get_colourspace_flags c =
     (if c = ''mjpeg'' \<or> c = ''yuv420'' then FLAG_VIDEO_JPEG_COLOURSPACE else FLAG_VIDEO_NONE)"

subsection \<open>Decimal output and the timestamp\<close>

definition digit :: "nat \<Rightarrow> char" where
  "digit n = ''0123456789'' ! (n mod 10)"

fun dec :: "nat \<Rightarrow> string" where
  "dec n = (if n < 10 then [digit n] else dec (n div 10) @ [digit n])"

declare dec.simps [simp del]

definition two_digits :: "nat \<Rightarrow> string" where
  "two_digits n = [digit (n div 10), digit n]"

text \<open>
  The fields of \<^verbatim>\<open>struct tm\<close> that the format reads, as \<^verbatim>\<open>std::localtime\<close> fills them:
  years since 1900, months since January, and so on.
\<close>

record tm =
  tm_year :: nat
  tm_mon :: nat
  tm_mday :: nat
  tm_hour :: nat
  tm_min :: nat
  tm_sec :: nat

text \<open>\<^verbatim>\<open>std::put_time(&tm, "%Y-%m-%d_%H-%M-%S")\<close> (line 272).\<close>

definition put_time :: "tm \<Rightarrow> string" where
  "put_time t =
     dec (1900 + tm_year t) @ ''-'' @ two_digits (tm_mon t + 1) @ ''-'' @ two_digits (tm_mday t)
       @ ''_'' @ two_digits (tm_hour t) @ ''-'' @ two_digits (tm_min t) @ ''-''
       @ two_digits (tm_sec t)"

text \<open>Lines 274-275: the name of the file a recording session writes.\<close>

definition motion_filename :: "options \<Rightarrow> tm \<Rightarrow> string" where
  "motion_filename opts t = savedir opts @ ''/'' @ put_time t @ ''-motionmov.h264''"

subsection \<open>The event loop\<close>

text \<open>
  The calls the loop makes into the camera, encoder, preview and output subsystems, and the
  lines it writes to \<^verbatim>\<open>std::cerr\<close> (without their line ends), in program order.
\<close>

datatype event =
    OutputCreate string    \<comment> \<open>\<^verbatim>\<open>Output::Create(options)\<close>, with \<^verbatim>\<open>options->output\<close> at the call\<close>
  | SetEncodeOutputReadyCallback
  | OpenCamera
  | ConfigureVideo colourspace_flags
  | StartEncoder
  | StartCamera
  | StopCamera
  | Teardown
  | StopEncoder
  | OutputSignal           \<comment> \<open>\<^verbatim>\<open>output->Signal()\<close>\<close>
  | AppEncodeBuffer        \<comment> \<open>\<^verbatim>\<open>app.EncodeBuffer(completed_request, app.VideoStream())\<close>\<close>
  | ShowPreview
  | PrintOptions
  | Cerr string

datatype msg_type = Quit | RequestComplete | OtherMsg

text \<open>
  What one iteration reads: the message \<^verbatim>\<open>app.Wait()\<close> returns, the two inputs of
  \<^verbatim>\<open>get_key_or_signal\<close>, \<^verbatim>\<open>now - start_time\<close> in nanoseconds (the clock's period),
  the frame's \<^verbatim>\<open>motion_detect.result\<close> metadata entry if it has one, the local time, and
  whether the frame's buffer and mapping are non-null (else \<^verbatim>\<open>EncodeBuffer\<close> throws).
\<close>

record tick =
  msg :: msg_type
  poll_in :: "int option"
  signal_received :: signal_number
  elapsed :: nat
  motion_result :: "bool option"
  localtime :: tm
  buffer_ok :: bool

text \<open>
  The locals of \<^verbatim>\<open>event_loop\<close> that change (lines 183-197) and \<^verbatim>\<open>options->output\<close>.
  \<open>frames_array\<close> is \<^verbatim>\<open>int frames[10000]\<close>, as a store from index to value whose bound is
  checked at every write; \<open>count\<close> is the \<^verbatim>\<open>unsigned int\<close> loop counter.
\<close>

record loop_state =
  options_output :: string
  motion_detected :: bool
  frame_count :: int
  movie_num :: int
  frame_num :: int
  frames_array :: "nat \<Rightarrow> int"
  motion_test :: bool
  count :: "32 word"

text \<open>
  Lines 188 and 192: \<^verbatim>\<open>int minframes = options->minframes; int gap = options->gap;\<close>, the
  conversion of an \<^verbatim>\<open>unsigned int\<close> to \<^verbatim>\<open>int\<close>: an option value of \<open>2^31\<close> or more
  reads as a negative number. The other \<^verbatim>\<open>int\<close> locals are modelled as unbounded
  integers: \<open>frame_num\<close> and \<open>frame_count\<close> stay far below \<open>2^31\<close>, and \<open>movie_num\<close>
  is only ever incremented and never read.
\<close>

definition minframes_int :: "options \<Rightarrow> int" where
  "minframes_int opts = sint (minframes opts)"

definition gap_int :: "options \<Rightarrow> int" where
  "gap_int opts = sint (gap opts)"

definition initial_state :: "options \<Rightarrow> loop_state" where
  "initial_state opts =
     \<lparr> options_output = output_path opts, motion_detected = False, frame_count = 0,
       movie_num = 0, frame_num = 0, frames_array = (\<lambda>i. 0), motion_test = False, count = 0 \<rparr>"

text \<open>Line 229: \<^verbatim>\<open>frames[frame_num] = motion_val;\<close> on an array of 10000 entries.\<close>

definition vote_write :: "bool \<Rightarrow> loop_state \<Rightarrow> failure + loop_state" where
  "vote_write motion_val s =
     (if 0 \<le> frame_num s \<and> frame_num s < 10000
      then Inr (s\<lparr>frames_array := (frames_array s)(nat (frame_num s) := of_bool motion_val)\<rparr>)
      else Inl OutOfBounds)"

text \<open>Lines 234-238: \<^verbatim>\<open>for (int i = 0; i < n; i++) sum += frames[i];\<close>\<close>

definition window_sum :: "(nat \<Rightarrow> int) \<Rightarrow> int \<Rightarrow> int" where
  "window_sum fr n = fold (\<lambda>i sum. sum + fr i) [0..<nat n] 0"

text \<open>Line 232: the guard of the window evaluation.\<close>

definition window_full :: "int \<Rightarrow> loop_state \<Rightarrow> bool" where
  "window_full g s = (frame_num s = g - 1)"

text \<open>
  Lines 226-250: store the vote, evaluate the window when the guard holds, then increment
  the cursor. The evaluation reads indices below \<open>g\<close> only after the write at index
  \<open>g - 1\<close> was in bounds.
\<close>

definition aggregate :: "int \<Rightarrow> bool \<Rightarrow> loop_state \<Rightarrow> failure + loop_state" where
  "aggregate g motion_val s =
     (case vote_write motion_val s of
        Inl e \<Rightarrow> Inl e
      | Inr s1 \<Rightarrow>
          let s2 = (if window_full g s1
                    then s1\<lparr>frame_num := 0, motion_test := (window_sum (frames_array s1) g > 0)\<rparr>
                    else s1)
          in Inr (s2\<lparr>frame_num := frame_num s2 + 1\<rparr>))"

text \<open>Lines 261-281: the Idle-to-Recording branch.\<close>

definition start_session :: "options \<Rightarrow> tm \<Rightarrow> loop_state \<Rightarrow> event list \<times> loop_state" where
  "start_session opts t s =
     (let filename = motion_filename opts t
      in ([Cerr ''motion detected boyo'', StopCamera, Teardown, OutputCreate filename,
           SetEncodeOutputReadyCallback, ConfigureVideo (get_colourspace_flags (codec opts)),
           StartEncoder, StartCamera],
          s\<lparr>movie_num := movie_num s + 1, frame_count := minframes_int opts,
            motion_detected := True, options_output := filename\<rparr>))"

text \<open>Lines 286-296: the Recording-to-Idle branch.\<close>

definition end_session :: "options \<Rightarrow> string \<Rightarrow> loop_state \<Rightarrow> event list \<times> loop_state" where
  "end_session opts origoutput s =
     ([Cerr ''motion ended boyo'', StopCamera, Teardown, OutputCreate origoutput,
       SetEncodeOutputReadyCallback, ConfigureVideo (get_colourspace_flags (codec opts)),
       StartEncoder, StartCamera],
      s\<lparr>motion_detected := False, options_output := origoutput\<rparr>)"

text \<open>
  Lines 258-303: the state machine. \<^verbatim>\<open>capture\<close> is still true whenever the third branch is
  reached, so that branch forwards the frame.
\<close>

definition transition ::
  "options \<Rightarrow> string \<Rightarrow> tick \<Rightarrow> loop_state \<Rightarrow> event list \<times> (failure + loop_state)" where
  "transition opts origoutput tk s =
     (if motion_test s \<and> \<not> motion_detected s then
        (let (evs, s') = start_session opts (localtime tk) s in (evs, Inr s'))
      else if \<not> motion_test s \<and> motion_detected s \<and> frame_count s = 0 then
        (let (evs, s') = end_session opts origoutput s in (evs, Inr s'))
      else if buffer_ok tk then ([AppEncodeBuffer, ShowPreview], Inr s)
      else ([], Inl (RuntimeError ''no buffer to encode'')))"

text \<open>Lines 304-307.\<close>

definition countdown :: "loop_state \<Rightarrow> loop_state" where
  "countdown s = (if frame_count s > 0 then s\<lparr>frame_count := frame_count s - 1\<rparr> else s)"

datatype outcome =
    Running loop_state     \<comment> \<open>the iteration ended; the loop goes on with this state\<close>
  | Returned               \<comment> \<open>\<^verbatim>\<open>return\<close>\<close>
  | Failed failure

text \<open>Lines 213-215.\<close>

definition timeout_reached :: "options \<Rightarrow> tick \<Rightarrow> bool" where
  "timeout_reached opts tk =
     (frames opts = 0 \<and> timeout opts \<noteq> 0 \<and> elapsed tk > timeout opts * 1000000)"

definition frameout_reached :: "options \<Rightarrow> loop_state \<Rightarrow> bool" where
  "frameout_reached opts s = (frames opts \<noteq> 0 \<and> count s \<ge> frames opts)"

text \<open>Line 206.\<close>

definition key_of :: "options \<Rightarrow> tick \<Rightarrow> int" where
  "key_of opts tk = get_key_or_signal opts (poll_in tk) (signal_received tk)"

text \<open>Lines 207-211: the manual trigger and the verbose line.\<close>

definition head_events :: "options \<Rightarrow> tick \<Rightarrow> loop_state \<Rightarrow> event list" where
  "head_events opts tk s =
     (if key_of opts tk = 10 then [OutputSignal] else [])
       @ (if verbose opts then [Cerr (''Viewfinder frame '' @ dec (unat (count s)))] else [])"

text \<open>Line 216: the condition of the orderly shutdown, and lines 218-221: what it does.\<close>

definition stop_now :: "options \<Rightarrow> tick \<Rightarrow> loop_state \<Rightarrow> bool" where
  "stop_now opts tk s =
     (timeout_reached opts tk \<or> frameout_reached opts s \<or> key_of opts tk = 120
        \<or> key_of opts tk = 88)"

definition halt_events :: "options \<Rightarrow> tick \<Rightarrow> event list" where
  "halt_events opts tk =
     (if timeout_reached opts tk
      then [Cerr (''Halting: reached timeout of '' @ dec (timeout opts) @ '' milliseconds.'')]
      else [])
       @ [StopCamera, StopEncoder]"

text \<open>
  Lines 226-228: \<^verbatim>\<open>motion_val\<close> starts false and keeps that value when the metadata has no
  \<^verbatim>\<open>motion_detect.result\<close> entry.
\<close>

definition motion_val :: "tick \<Rightarrow> bool" where
  "motion_val tk = (case motion_result tk of Some b \<Rightarrow> b | None \<Rightarrow> False)"

text \<open>
  Lines 225-307 and the \<^verbatim>\<open>count++\<close> of the loop header: the aggregator, the state machine,
  the hold counter.
\<close>

definition process_frame ::
  "options \<Rightarrow> string \<Rightarrow> tick \<Rightarrow> loop_state \<Rightarrow> event list \<times> outcome" where
  "process_frame opts origoutput tk s =
     (case aggregate (gap_int opts) (motion_val tk) s of
        Inl e \<Rightarrow> ([], Failed e)
      | Inr s1 \<Rightarrow>
          (case transition opts origoutput tk s1 of
             (evs, Inl e) \<Rightarrow> (evs, Failed e)
           | (evs, Inr s2) \<Rightarrow> (evs, Running ((countdown s2)\<lparr>count := count s2 + 1\<rparr>))))"

text \<open>One iteration of the \<^verbatim>\<open>for\<close> loop (lines 197-308).\<close>

definition step :: "options \<Rightarrow> string \<Rightarrow> tick \<Rightarrow> loop_state \<Rightarrow> event list \<times> outcome" where
  "step opts origoutput tk s =
     (case msg tk of
        Quit \<Rightarrow> ([], Returned)
      | OtherMsg \<Rightarrow> ([], Failed (RuntimeError ''unrecognised message!''))
      | RequestComplete \<Rightarrow>
          if stop_now opts tk s then (head_events opts tk s @ halt_events opts tk, Returned)
          else (let (evs, r) = process_frame opts origoutput tk s
                in (head_events opts tk s @ evs, r)))"

text \<open>
  The loop over the messages \<^verbatim>\<open>Wait()\<close> delivers. It has no exit of its own: on a finite
  prefix of the input it ends \<open>Running\<close>, blocked in \<^verbatim>\<open>Wait()\<close>.
\<close>

fun run_loop :: "options \<Rightarrow> string \<Rightarrow> loop_state \<Rightarrow> tick list \<Rightarrow> event list \<times> outcome" where
  "run_loop opts origoutput s [] = ([], Running s)"
| "run_loop opts origoutput s (tk # tks) =
     (case step opts origoutput tk s of
        (evs, Running s') \<Rightarrow>
          (let (evs', r) = run_loop opts origoutput s' tks in (evs @ evs', r))
      | (evs, r) \<Rightarrow> (evs, r))"

text \<open>\<^verbatim>\<open>event_loop\<close> (lines 168-309): the set-up of lines 170-194, then the loop.\<close>

definition event_loop :: "options \<Rightarrow> tick list \<Rightarrow> event list \<times> outcome" where
  "event_loop opts tks =
     (let origoutput = output_path opts;
          (evs, r) = run_loop opts origoutput (initial_state opts) tks
      in ([OutputCreate origoutput, SetEncodeOutputReadyCallback, OpenCamera,
           ConfigureVideo (get_colourspace_flags (codec opts)), StartEncoder, StartCamera] @ evs,
          r))"

text \<open>
  \<^verbatim>\<open>main\<close> (lines 311-332). \<open>parse_ok\<close> is what the inherited \<^verbatim>\<open>options->Parse(argc, argv)\<close>
  returns and \<open>opts\<close> the option values it stored; \<^verbatim>\<open>MotionDetectOptions\<close> registers
  \<^verbatim>\<open>minframes\<close>, \<^verbatim>\<open>gap\<close> and \<^verbatim>\<open>savedir\<close> with a type and a default only, and neither it
  nor \<^verbatim>\<open>main\<close> nor \<^verbatim>\<open>event_loop\<close> inspects the values before the loop runs.
\<close>

datatype exit_status =
    ExitCode int
  | Crashed failure        \<comment> \<open>not an exception: nothing catches it\<close>
  | NotTerminated          \<comment> \<open>still in the loop when the input prefix ends\<close>

definition main_prog :: "bool \<Rightarrow> options \<Rightarrow> tick list \<Rightarrow> event list \<times> exit_status" where
  "main_prog parse_ok opts tks =
     (if parse_ok then
        (let ev_print = (if verbose opts then [PrintOptions] else []);
             (evs, r) = event_loop opts tks
         in case r of
              Returned \<Rightarrow> (Cerr ''hello there!'' # ev_print @ evs, ExitCode 0)
            | Running s \<Rightarrow> (Cerr ''hello there!'' # ev_print @ evs, NotTerminated)
            | Failed (RuntimeError m) \<Rightarrow>
                (Cerr ''hello there!'' # ev_print @ evs @ [Cerr (''ERROR: *** '' @ m @ '' ***'')],
                 ExitCode (- 1))
            | Failed f \<Rightarrow> (Cerr ''hello there!'' # ev_print @ evs, Crashed f))
      else ([Cerr ''hello there!''], ExitCode 0))"

subsection \<open>Observations\<close>

definition running_state :: "outcome \<Rightarrow> loop_state option" where
  "running_state r = (case r of Running s \<Rightarrow> Some s | Returned \<Rightarrow> None | Failed f \<Rightarrow> None)"

text \<open>
  The vote aggregator alone, fed a list of votes: for each frame, whether the guard of the
  window evaluation held on it, and the state (or the failure) at the end.
\<close>

fun aggregate_run :: "int \<Rightarrow> loop_state \<Rightarrow> bool list \<Rightarrow> bool list \<times> (failure + loop_state)" where
  "aggregate_run g s [] = ([], Inr s)"
| "aggregate_run g s (v # vs) =
     (case aggregate g v s of
        Inl e \<Rightarrow> ([], Inl e)
      | Inr s' \<Rightarrow> (let (fired, r) = aggregate_run g s' vs in (window_full g s # fired, r)))"

text \<open>
  A trace in which session starts and session ends alternate: \<open>recording\<close> says whether a
  session is open where the trace begins. The two transitions are recognised by the line
  each writes to \<^verbatim>\<open>std::cerr\<close> first.
\<close>

fun alternating :: "bool \<Rightarrow> event list \<Rightarrow> bool" where
  "alternating recording [] = True"
| "alternating recording (e # es) =
     (if e = Cerr ''motion detected boyo'' then \<not> recording \<and> alternating True es
      else if e = Cerr ''motion ended boyo'' then recording \<and> alternating False es
      else alternating recording es)"

text \<open>A trace in which neither transition fires.\<close>

definition plain :: "event list \<Rightarrow> bool" where
  "plain evs = (Cerr ''motion detected boyo'' \<notin> set evs \<and> Cerr ''motion ended boyo'' \<notin> set evs)"

subsection \<open>Sample inputs\<close>

text \<open>
  A configuration with a window of two frames and a hold of one frame, a local time, and a
  frame with a given vote: the concrete inputs at which the results below are evaluated.
\<close>

definition sample_options :: options where
  "sample_options =
     \<lparr> keypress = False, signal = False, verbose = False, frames = 0, timeout = 0,
       codec = ''h264'', output_path = ''out.h264'', minframes = 1, gap = 2, savedir = ''d'' \<rparr>"

definition sample_tm :: tm where
  "sample_tm = \<lparr> tm_year = 126, tm_mon = 10, tm_mday = 2, tm_hour = 21, tm_min = 58, tm_sec = 0 \<rparr>"

definition frame_tick :: "bool \<Rightarrow> tick" where
  "frame_tick vote =
     \<lparr> msg = RequestComplete, poll_in = None, signal_received = NoSignal, elapsed = 0,
       motion_result = Some vote, localtime = sample_tm, buffer_ok = True \<rparr>"

section \<open>Properties\<close>

subsection \<open>Facts about one iteration\<close>

lemma aggregate_Inr:
  assumes "aggregate g v s = Inr s'"
  shows "0 \<le> frame_num s" "frame_num s < 10000"
    "motion_detected s' = motion_detected s" "frame_count s' = frame_count s"
    "options_output s' = options_output s" "movie_num s' = movie_num s" "count s' = count s"
    "frame_num s' = (if window_full g s then 1 else frame_num s + 1)"
    "\<not> window_full g s \<Longrightarrow> motion_test s' = motion_test s"
  using assms
  by (auto simp: aggregate_def vote_write_def window_full_def Let_def split: if_splits)

lemma aggregate_Inl:
  "aggregate g v s = Inl e \<Longrightarrow> e = OutOfBounds \<and> \<not> (0 \<le> frame_num s \<and> frame_num s < 10000)"
  by (auto simp: aggregate_def vote_write_def Let_def split: if_splits)

lemma process_frame_Running:
  assumes "process_frame opts orig tk s = (evs, Running s')"
  shows "\<exists>s1 s2. aggregate (gap_int opts) (motion_val tk) s = Inr s1
           \<and> transition opts orig tk s1 = (evs, Inr s2)
           \<and> s' = (countdown s2)\<lparr>count := count s2 + 1\<rparr>"
  using assms by (auto simp: process_frame_def split: sum.splits prod.splits)

lemma step_Running:
  assumes "step opts orig tk s = (evs, Running s')"
  shows "msg tk = RequestComplete \<and> \<not> stop_now opts tk s
         \<and> (\<exists>evs'. evs = head_events opts tk s @ evs'
                \<and> process_frame opts orig tk s = (evs', Running s'))"
  using assms by (auto simp: step_def split: msg_type.splits if_splits prod.splits)

lemma transition_cases:
  "transition opts orig tk s =
     (if motion_test s \<and> \<not> motion_detected s
      then (fst (start_session opts (localtime tk) s), Inr (snd (start_session opts (localtime tk) s)))
      else if \<not> motion_test s \<and> motion_detected s \<and> frame_count s = 0
      then (fst (end_session opts orig s), Inr (snd (end_session opts orig s)))
      else if buffer_ok tk then ([AppEncodeBuffer, ShowPreview], Inr s)
      else ([], Inl (RuntimeError ''no buffer to encode'')))"
  by (simp add: transition_def split: prod.splits)


lemma alternating_plain_append: "plain xs \<Longrightarrow> alternating r (xs @ ys) = alternating r ys"
  by (induction xs) (auto simp: plain_def)

lemma plain_head_events: "plain (head_events opts tk s)"
  by (simp add: plain_def head_events_def)

lemma plain_halt_events: "plain (halt_events opts tk)"
  by (simp add: plain_def halt_events_def)

lemma transition_alternating:
  "transition opts orig tk s = (evs, r) \<Longrightarrow>
     alternating (motion_detected s) (evs @ rest) =
       alternating (case r of Inr s' \<Rightarrow> motion_detected s' | Inl e \<Rightarrow> motion_detected s) rest"
  by (auto simp: transition_cases start_session_def end_session_def Let_def split: if_splits)


lemma countdown_fields [simp]:
  "motion_detected (countdown s) = motion_detected s"
  "options_output (countdown s) = options_output s"
  "motion_test (countdown s) = motion_test s"
  "frame_num (countdown s) = frame_num s"
  "movie_num (countdown s) = movie_num s"
  "count (countdown s) = count s"
  "frame_count (countdown s) = (if frame_count s > 0 then frame_count s - 1 else frame_count s)"
  by (simp_all add: countdown_def)

lemma process_frame_alternating:
  "process_frame opts orig tk s = (evs, r) \<Longrightarrow>
     alternating (motion_detected s) (evs @ rest) =
       alternating (case r of Running s' \<Rightarrow> motion_detected s' | _ \<Rightarrow> motion_detected s) rest"
proof (cases "aggregate (gap_int opts) (motion_val tk) s")
  case (Inl e)
  assume "process_frame opts orig tk s = (evs, r)"
  with Inl show ?thesis by (auto simp: process_frame_def)
next
  case (Inr s1)
  assume pf: "process_frame opts orig tk s = (evs, r)"
  obtain evt rt where t: "transition opts orig tk s1 = (evt, rt)" by (cases "transition opts orig tk s1")
  from aggregate_Inr(3)[OF Inr] have md: "motion_detected s1 = motion_detected s" .
  from transition_alternating[OF t, of rest] pf Inr t md show ?thesis
    by (cases rt) (auto simp: process_frame_def)
qed

lemma step_alternating:
  "step opts orig tk s = (evs, r) \<Longrightarrow>
     alternating (motion_detected s) (evs @ rest) =
       alternating (case r of Running s' \<Rightarrow> motion_detected s' | _ \<Rightarrow> motion_detected s) rest"
proof (cases "msg tk = RequestComplete \<and> \<not> stop_now opts tk s")
  case True
  assume st: "step opts orig tk s = (evs, r)"
  obtain evp rp where p: "process_frame opts orig tk s = (evp, rp)"
    by (cases "process_frame opts orig tk s")
  with st True have "evs = head_events opts tk s @ evp" "r = rp"
    by (auto simp: step_def)
  with process_frame_alternating[OF p, of rest] show ?thesis
    by (simp add: alternating_plain_append plain_head_events)
next
  case False
  assume st: "step opts orig tk s = (evs, r)"
  with False have "plain evs \<and> (\<forall>s'. r \<noteq> Running s')"
    using plain_head_events[of opts tk s] plain_halt_events[of opts tk]
    by (cases "msg tk") (auto simp: step_def plain_def split: if_splits)
  then show ?thesis
    by (cases r) (auto simp: alternating_plain_append)
qed

lemma run_loop_alt: "alternating (motion_detected s) (fst (run_loop opts orig s tks))"
proof (induction tks arbitrary: s)
  case Nil
  show ?case by simp
next
  case (Cons tk tks)
  obtain evs r where st: "step opts orig tk s = (evs, r)" by (cases "step opts orig tk s")
  show ?case
  proof (cases r)
    case (Running s')
    obtain evs' r' where rl: "run_loop opts orig s' tks = (evs', r')"
      by (cases "run_loop opts orig s' tks")
    from Cons.IH[of s'] rl have "alternating (motion_detected s') evs'" by simp
    with step_alternating[OF st, of evs'] Running st rl show ?thesis by simp
  next
    case Returned
    with step_alternating[OF st, of "[]"] st show ?thesis by simp
  next
    case (Failed f)
    with step_alternating[OF st, of "[]"] st show ?thesis by simp
  qed
qed

lemma step_Running_parts:
  assumes "step opts orig tk s = (evs, Running s')"
  obtains s1 s2 evt where
    "msg tk = RequestComplete" "\<not> stop_now opts tk s"
    "aggregate (gap_int opts) (motion_val tk) s = Inr s1"
    "transition opts orig tk s1 = (evt, Inr s2)"
    "s' = (countdown s2)\<lparr>count := count s2 + 1\<rparr>"
    "evs = head_events opts tk s @ evt"
proof -
  from step_Running[OF assms] obtain evt where
    a: "msg tk = RequestComplete" "\<not> stop_now opts tk s" "evs = head_events opts tk s @ evt"
      "process_frame opts orig tk s = (evt, Running s')"
    by blast
  from process_frame_Running[OF a(4)] obtain s1 s2 where
    b: "aggregate (gap_int opts) (motion_val tk) s = Inr s1"
      "transition opts orig tk s1 = (evt, Inr s2)"
      "s' = (countdown s2)\<lparr>count := count s2 + 1\<rparr>"
    by blast
  show thesis by (rule that[OF a(1) a(2) b(1) b(2) b(3) a(3)])
qed

lemma run_loop_append_Running:
  "run_loop opts orig s xs = (evs, Running s') \<Longrightarrow>
     run_loop opts orig s (xs @ ys)
       = (evs @ fst (run_loop opts orig s' ys), snd (run_loop opts orig s' ys))"
proof (induction xs arbitrary: s evs)
  case Nil
  then show ?case by simp
next
  case (Cons x xs)
  obtain e r where st: "step opts orig x s = (e, r)" by (cases "step opts orig x s")
  show ?case
  proof (cases r)
    case (Running u)
    obtain e' r' where rl: "run_loop opts orig u xs = (e', r')" by (cases "run_loop opts orig u xs")
    with Cons.prems st Running have "r' = Running s'" "evs = e @ e'" by auto
    with Cons.IH[of u e'] rl st Running show ?thesis by simp
  next
    case Returned
    with Cons.prems st show ?thesis by simp
  next
    case (Failed f)
    with Cons.prems st show ?thesis by simp
  qed
qed

lemma event_loop_run_loop:
  "event_loop opts tks =
     ([OutputCreate (output_path opts), SetEncodeOutputReadyCallback, OpenCamera,
       ConfigureVideo (get_colourspace_flags (codec opts)), StartEncoder, StartCamera]
        @ fst (run_loop opts (output_path opts) (initial_state opts) tks),
      snd (run_loop opts (output_path opts) (initial_state opts) tks))"
  by (simp add: event_loop_def Let_def split: prod.splits)

lemma transition_frame_num:
  "transition opts orig tk s = (evs, Inr s') \<Longrightarrow> frame_num s' = frame_num s"
  by (auto simp: transition_cases start_session_def end_session_def Let_def split: if_splits)

lemma key_of_cases:
  "key_of opts tk =
     (if signal opts \<and> signal_received tk = SIGUSR1 then 10
      else if signal opts \<and> signal_received tk = SIGUSR2 then 120
      else if keypress opts then (case poll_in tk of Some c \<Rightarrow> c | None \<Rightarrow> 0)
      else 0)"
  by (simp add: key_of_def get_key_or_signal_def Let_def)

text \<open>Rules that evaluate the model on concrete inputs.\<close>

lemma window_sum_rec:
  "window_sum fr n = (if n \<le> 0 then 0 else window_sum fr (n - 1) + fr (nat (n - 1)))"
proof (cases "n \<le> 0")
  case True
  then show ?thesis by (simp add: window_sum_def)
next
  case False
  then have "nat n = Suc (nat (n - 1))" by simp
  then show ?thesis using False by (simp add: window_sum_def)
qed

lemmas loop_defs = step_def process_frame_def aggregate_def vote_write_def window_full_def
  window_sum_rec transition_def start_session_def end_session_def countdown_def
  head_events_def halt_events_def stop_now_def timeout_reached_def frameout_reached_def
  key_of_def get_key_or_signal_def motion_val_def gap_int_def minframes_int_def
  initial_state_def sample_options_def frame_tick_def sample_tm_def running_state_def
  motion_filename_def put_time_def two_digits_def digit_def plain_def get_colourspace_flags_def
  event_loop_def

subsection \<open>The frame buffer queue\<close>

text \<open>
  C6, as amended. Invoking the completion callback on an empty queue fails (with the
  runtime error when \<open>mem\<close> is null as the encoder passes it, and in any case with a
  failure); a push appends at the tail and a pop removes exactly one reference, the one at
  the head of the queue, which is the oldest one queued. The frame just pushed is the one
  removed when the queue was empty before the push, and then the queue is empty again; on a
  queue that already holds \<open>h\<close>, it is \<open>h\<close> that goes and the pushed frame stays.
\<close>

theorem queue_contract:
  "encodeBufferDone None ([] :: 'r queue) = Inl (RuntimeError ''no buffer available to return'')
   \<and> isl (encodeBufferDone mem ([] :: 'r queue))
   \<and> EncodeBuffer True True True r q = Inr (queue_push r q)
   \<and> encodeBufferDone None (queue_push r ([] :: 'r queue)) = Inr []
   \<and> encodeBufferDone None (queue_push r (h # q)) = Inr (queue_push r q)"
  by (simp add: EncodeBuffer_def encodeBufferDone_def queue_push_def)

theorem queue_contract_witness:
  "encodeBufferDone None ([] :: nat queue) = Inl (RuntimeError ''no buffer available to return'')
   \<and> isl (encodeBufferDone (Some 7) ([] :: nat queue))
   \<and> EncodeBuffer True True True (3 :: nat) [1, 2] = Inr [1, 2, 3]
   \<and> encodeBufferDone None (queue_push (3 :: nat) []) = Inr []
   \<and> encodeBufferDone None (queue_push (3 :: nat) [1, 2]) = Inr [2, 3]"
  using queue_contract [where r = "3 :: nat" and mem = "Some 7" and h = 1 and q = "[2]"]
    queue_contract [where r = "3 :: nat" and mem = "Some 7" and h = 1 and q = "[1, 2]"]
  by (simp add: queue_push_def)

text \<open>
  C6 as stated fails on a queue that is not empty: after pushing frame 2 onto the queue
  holding frame 1, the pop leaves frame 2 queued; it has removed frame 1, not the frame
  that was pushed.
\<close>

theorem queue_roundtrip_counterexample:
  "EncodeBuffer True True True (2 :: nat) [1] = Inr [1, 2]
   \<and> encodeBufferDone None [1, 2 :: nat] = Inr [2]
   \<and> encodeBufferDone None [1, 2 :: nat] \<noteq> Inr [1]"
  by (simp add: EncodeBuffer_def encodeBufferDone_def queue_push_def)

subsection \<open>The vote aggregator\<close>

text \<open>
  C1, evaluated on the code at gap 3 and the votes true, false, false, false, false. The
  window evaluation fires on frame 3 and again on frame 5, two frames later and not three:
  the cursor is reset to 0 and then incremented in the same iteration, so every window
  after the first has gap - 1 frames and slot 0 keeps the first vote ever stored. The
  second evaluation is therefore true although frames 3, 4 and 5 all voted false.
\<close>

theorem aggregator_cadence_gap3:
  "fst (aggregate_run (gap_int (sample_options\<lparr>gap := 3\<rparr>))
          (initial_state (sample_options\<lparr>gap := 3\<rparr>)) [True, False, False, False, False])
     = [False, False, True, False, True]
   \<and> map_sum id motion_test
        (snd (aggregate_run (gap_int (sample_options\<lparr>gap := 3\<rparr>))
               (initial_state (sample_options\<lparr>gap := 3\<rparr>))
               [True, False, False, False, False]))
     = Inr True"
  by (simp add: loop_defs Let_def)

lemma quiet_no_stop:
  assumes "frames opts = 0" "timeout opts = 0" "\<not> keypress opts" "\<not> signal opts"
  shows "\<not> stop_now opts tk s"
  using assms by (simp add: stop_now_def timeout_reached_def frameout_reached_def key_of_cases)

lemma step_frame_ok:
  assumes q: "frames opts = 0" "timeout opts = 0" "\<not> keypress opts" "\<not> signal opts"
    and m: "msg tk = RequestComplete" and b: "buffer_ok tk"
    and f: "0 \<le> frame_num s" "frame_num s < 10000"
  shows "\<exists>evs s'. step opts orig tk s = (evs, Running s')
           \<and> frame_num s' = (if window_full (gap_int opts) s then 1 else frame_num s + 1)"
proof -
  have "\<exists>u. aggregate (gap_int opts) (motion_val tk) s = Inr u"
    using f by (simp add: aggregate_def vote_write_def Let_def)
  then obtain u where u: "aggregate (gap_int opts) (motion_val tk) s = Inr u" by blast
  have "\<exists>evt v. transition opts orig tk u = (evt, Inr v)"
    using b by (simp add: transition_cases)
  then obtain evt v where v: "transition opts orig tk u = (evt, Inr v)" by blast
  have "step opts orig tk s = (head_events opts tk s @ evt, Running ((countdown v)\<lparr>count := count v + 1\<rparr>))"
    using m quiet_no_stop[OF q, of tk s] u v by (simp add: step_def process_frame_def)
  moreover have "frame_num ((countdown v)\<lparr>count := count v + 1\<rparr>)
      = (if window_full (gap_int opts) s then 1 else frame_num s + 1)"
    using transition_frame_num[OF v] aggregate_Inr(8)[OF u] by simp
  ultimately show ?thesis by blast
qed

lemma step_frame_oob:
  assumes q: "frames opts = 0" "timeout opts = 0" "\<not> keypress opts" "\<not> signal opts"
    and m: "msg tk = RequestComplete" and f: "10000 \<le> frame_num s"
  shows "snd (step opts orig tk s) = Failed OutOfBounds"
proof -
  have "aggregate (gap_int opts) (motion_val tk) s = Inl OutOfBounds"
    using f by (simp add: aggregate_def vote_write_def)
  then show ?thesis
    using m quiet_no_stop[OF q, of tk s] by (simp add: step_def process_frame_def)
qed

lemma run_gap_one:
  assumes q: "frames opts = 0" "timeout opts = 0" "\<not> keypress opts" "\<not> signal opts"
    and m: "msg tk = RequestComplete" and b: "buffer_ok tk" and g: "gap_int opts = 1"
  shows "1 \<le> frame_num s \<Longrightarrow> frame_num s + int n \<le> 10000 \<Longrightarrow>
     \<exists>evs s'. run_loop opts orig s (replicate n tk) = (evs, Running s')
        \<and> frame_num s' = frame_num s + int n"
proof (induction n arbitrary: s)
  case 0
  then show ?case by simp
next
  case (Suc n)
  from Suc.prems have f: "0 \<le> frame_num s" "frame_num s < 10000" by simp_all
  from Suc.prems g have nf: "\<not> window_full (gap_int opts) s" by (simp add: window_full_def)
  from step_frame_ok[OF q m b f, of orig] nf obtain e u where
    st: "step opts orig tk s = (e, Running u)" "frame_num u = frame_num s + 1" by auto
  from Suc.prems st(2) have "1 \<le> frame_num u" "frame_num u + int n \<le> 10000" by simp_all
  from Suc.IH[OF this] obtain e' s' where
    "run_loop opts orig u (replicate n tk) = (e', Running s')" "frame_num s' = frame_num u + int n"
    by blast
  with st show ?case by simp
qed

text \<open>
  C8, evaluated on the code at gap 1. The first frame is written at index 0 and evaluated;
  the cursor is then reset to 0 and incremented, so it is 1 when the second frame is
  written: above gap - 1 = 0. From there the guard \<open>frame_num = gap - 1\<close> never holds
  again, the cursor grows by one per frame, and frame 10001 is written at index 10000,
  past the end of the 10000-entry array. The configuration is accepted as it is: nothing
  compares gap with the capacity.
\<close>

theorem gap_one_out_of_bounds:
  "map_option frame_num (running_state (snd (event_loop (sample_options\<lparr>gap := 1\<rparr>)
      [frame_tick False]))) = Some 1
   \<and> snd (event_loop (sample_options\<lparr>gap := 1\<rparr>) (replicate 10001 (frame_tick False)))
       = Failed OutOfBounds"
proof
  show "map_option frame_num (running_state (snd (event_loop (sample_options\<lparr>gap := 1\<rparr>)
      [frame_tick False]))) = Some 1"
    by (simp add: loop_defs Let_def)
next
  let ?o = "sample_options\<lparr>gap := 1\<rparr>" and ?tk = "frame_tick False"
  let ?i = "initial_state ?o"
  have q: "frames ?o = 0" "timeout ?o = 0" "\<not> keypress ?o" "\<not> signal ?o"
    by (simp_all add: sample_options_def)
  have m: "msg ?tk = RequestComplete" and b: "buffer_ok ?tk" by (simp_all add: frame_tick_def)
  have g: "gap_int ?o = 1" by (simp add: gap_int_def sample_options_def)
  have i: "0 \<le> frame_num ?i" "frame_num ?i < 10000" "window_full (gap_int ?o) ?i"
    using g by (simp_all add: initial_state_def window_full_def)
  from step_frame_ok[OF q m b i(1,2), of "''out.h264''"] i(3) obtain e1 s1 where
    s1: "step ?o ''out.h264'' ?tk ?i = (e1, Running s1)" "frame_num s1 = 1" by auto
  from run_gap_one[OF q m b g, of s1 9999 "''out.h264''"] s1(2) obtain e2 s2 where
    s2: "run_loop ?o ''out.h264'' s1 (replicate 9999 ?tk) = (e2, Running s2)" "frame_num s2 = 10000"
    by auto
  have s3: "snd (run_loop ?o ''out.h264'' s2 [?tk]) = Failed OutOfBounds"
    using step_frame_oob[OF q m, of s2 "''out.h264''"] s2(2)
    by (cases "step ?o ''out.h264'' ?tk s2") (auto split: outcome.splits)
  have r: "replicate 10001 ?tk = ?tk # (replicate 9999 ?tk @ [?tk])"
  proof -
    have "replicate (1 + (9999 + 1)) ?tk = replicate 1 ?tk @ replicate 9999 ?tk @ replicate 1 ?tk"
      by (simp only: replicate_add)
    then show ?thesis by simp
  qed
  have "snd (run_loop ?o ''out.h264'' s1 (replicate 9999 ?tk @ [?tk])) = Failed OutOfBounds"
    using run_loop_append_Running[OF s2(1), of "[?tk]"] s3 by simp
  then have "snd (run_loop ?o ''out.h264'' ?i (replicate 10001 ?tk)) = Failed OutOfBounds"
    using s1(1) unfolding r by (auto split: prod.splits)
  moreover have "output_path ?o = ''out.h264''" by (simp add: sample_options_def)
  ultimately show "snd (event_loop ?o (replicate 10001 ?tk)) = Failed OutOfBounds"
    by (simp add: event_loop_run_loop)
qed

text \<open>
  What does hold of the aggregator for every gap from 2 to 10000: every write is in bounds
  with the cursor between 0 and gap - 1; an evaluation sets the debounced value to the OR
  of the gap stored slots; and from a cursor \<open>c\<close> the next evaluation is on frame
  \<open>gap - c\<close>, after which the cursor is 1. So the first evaluation (cursor 0) is on frame
  \<open>gap\<close>, and every later one comes \<open>gap - 1\<close> frames after the one before.
\<close>

lemma aggregate_in_bounds:
  assumes g: "2 \<le> g" "g \<le> 10000" and f: "0 \<le> frame_num s" "frame_num s \<le> g - 1"
  shows "\<exists>s'. aggregate g v s = Inr s' \<and> 0 \<le> frame_num s' \<and> frame_num s' \<le> g - 1"
  using assms by (auto simp: aggregate_def vote_write_def window_full_def Let_def)

lemma aggregate_run_in_bounds:
  "2 \<le> g \<Longrightarrow> g \<le> 10000 \<Longrightarrow> 0 \<le> frame_num s \<Longrightarrow> frame_num s \<le> g - 1 \<Longrightarrow>
     \<exists>s'. snd (aggregate_run g s vs) = Inr s' \<and> 0 \<le> frame_num s' \<and> frame_num s' \<le> g - 1"
proof (induction vs arbitrary: s)
  case Nil
  then show ?case by simp
next
  case (Cons v vs)
  from aggregate_in_bounds[OF Cons.prems, of v] obtain u where
    u: "aggregate g v s = Inr u" "0 \<le> frame_num u" "frame_num u \<le> g - 1" by blast
  from Cons.IH[OF Cons.prems(1,2) u(2,3)] u(1) show ?case
    by (auto split: prod.splits)
qed

lemma window_sum_pos:
  assumes "\<forall>i. 0 \<le> fr i"
  shows "0 < window_sum fr n \<longleftrightarrow> (\<exists>i < nat n. 0 < fr i)"
proof -
  have "fold (\<lambda>i sum. sum + fr i) [0..<k] 0 = (\<Sum>i<k. fr i)" for k
    by (induction k) simp_all
  then have "window_sum fr n = (\<Sum>i<nat n. fr i)" by (simp add: window_sum_def)
  moreover have "0 \<le> (\<Sum>i<nat n. fr i)" using assms by (simp add: sum_nonneg)
  moreover have "(\<Sum>i<nat n. fr i) = 0 \<longleftrightarrow> (\<forall>i \<in> {..<nat n}. fr i = 0)"
    using assms by (intro sum_nonneg_eq_0_iff) simp_all
  moreover have "0 < fr i \<longleftrightarrow> fr i \<noteq> 0" for i
    using assms[rule_format, of i] by arith
  ultimately show ?thesis by (auto simp: less_le)
qed


lemma aggregate_evaluates_or:
  assumes a: "aggregate g v s = Inr s'" and w: "window_full g s"
    and n: "\<forall>i. 0 \<le> frames_array s i"
  shows "motion_test s' \<longleftrightarrow> (\<exists>i < nat g. 0 < frames_array s' i)"
    and "frames_array s' = (frames_array s)(nat (frame_num s) := of_bool v)"
    and "\<forall>i. 0 \<le> frames_array s' i"
proof -
  let ?fr = "(frames_array s)(nat (frame_num s) := of_bool v)"
  have nn: "\<forall>i. 0 \<le> ?fr i" using n by simp
  from a w have m: "motion_test s' = (0 < window_sum ?fr g)" and f: "frames_array s' = ?fr"
    by (auto simp: aggregate_def vote_write_def window_full_def Let_def split: if_splits)
  from m f window_sum_pos[OF nn, of g]
  show "motion_test s' \<longleftrightarrow> (\<exists>i < nat g. 0 < frames_array s' i)" by simp
  from f show "frames_array s' = ?fr" .
  from f nn show "\<forall>i. 0 \<le> frames_array s' i" by simp
qed

lemma aggregate_run_cadence:
  "2 \<le> g \<Longrightarrow> g \<le> 10000 \<Longrightarrow> 0 \<le> frame_num s \<Longrightarrow> frame_num s \<le> g - 1 \<Longrightarrow>
   int (length vs) = g - frame_num s \<Longrightarrow>
     fst (aggregate_run g s vs) = replicate (nat (g - 1 - frame_num s)) False @ [True]
     \<and> (\<exists>s'. snd (aggregate_run g s vs) = Inr s' \<and> frame_num s' = 1)"
proof (induction vs arbitrary: s)
  case Nil
  then show ?case by simp
next
  case (Cons v vs)
  from aggregate_in_bounds[OF Cons.prems(1-4), of v] obtain u where
    u: "aggregate g v s = Inr u" "0 \<le> frame_num u" "frame_num u \<le> g - 1" by blast
  show ?case
  proof (cases "window_full g s")
    case True
    then have "frame_num s = g - 1" by (simp add: window_full_def)
    with Cons.prems(5) have "vs = []" by simp
    with u(1) True aggregate_Inr(8)[OF u(1)] \<open>frame_num s = g - 1\<close> show ?thesis by simp
  next
    case False
    with aggregate_Inr(8)[OF u(1)] have fu: "frame_num u = frame_num s + 1" by simp
    with Cons.prems(5) have "int (length vs) = g - frame_num u" by simp
    from Cons.IH[OF Cons.prems(1,2) u(2,3) this] obtain s' where
      ih: "fst (aggregate_run g u vs) = replicate (nat (g - 1 - frame_num u)) False @ [True]"
        "snd (aggregate_run g u vs) = Inr s'" "frame_num s' = 1" by blast
    from False Cons.prems(4) have "frame_num s < g - 1" by (simp add: window_full_def)
    with Cons.prems(3) fu have
      "nat (g - 1 - frame_num s) = Suc (nat (g - 1 - frame_num u))" by simp
    with ih u(1) False show ?thesis by (auto split: prod.splits)
  qed
qed

subsection \<open>The state machine\<close>

text \<open>
  C2. In the trace of every run of the event loop, session starts and session ends
  alternate, beginning with a start: the Idle-to-Recording transition never fires twice
  without a Recording-to-Idle transition in between. And in a state whose
  \<open>motion_detected\<close> flag is set, a true debounced vote takes the forwarding branch: the
  frame goes to the encoder and the preview (or \<^verbatim>\<open>EncodeBuffer\<close> throws), the state and with it
  the output path are unchanged, and nothing is torn down or restarted.
\<close>

theorem no_duplicate_session_start:
  "alternating False (fst (event_loop opts tks)) \<and>
   (motion_detected s \<and> motion_test s \<longrightarrow>
      transition opts orig tk s =
        (if buffer_ok tk then ([AppEncodeBuffer, ShowPreview], Inr s)
         else ([], Inl (RuntimeError ''no buffer to encode''))))"
proof
  obtain evs r where rl: "run_loop opts (output_path opts) (initial_state opts) tks = (evs, r)"
    by (cases "run_loop opts (output_path opts) (initial_state opts) tks")
  have "alternating (motion_detected (initial_state opts)) evs"
    using run_loop_alt[of "initial_state opts" opts "output_path opts" tks] rl by simp
  then show "alternating False (fst (event_loop opts tks))"
    using rl by (simp add: event_loop_def initial_state_def)
next
  show "motion_detected s \<and> motion_test s \<longrightarrow>
      transition opts orig tk s =
        (if buffer_ok tk then ([AppEncodeBuffer, ShowPreview], Inr s)
         else ([], Inl (RuntimeError ''no buffer to encode'')))"
    by (simp add: transition_cases)
qed

theorem no_duplicate_session_start_witness:
  "alternating False (fst (event_loop sample_options [frame_tick False, frame_tick True, frame_tick False]))
   \<and> motion_detected ((initial_state sample_options)\<lparr>motion_detected := True, motion_test := True\<rparr>)
   \<and> motion_test ((initial_state sample_options)\<lparr>motion_detected := True, motion_test := True\<rparr>)
   \<and> transition sample_options ''out.h264'' (frame_tick True)
        ((initial_state sample_options)\<lparr>motion_detected := True, motion_test := True\<rparr>)
      = ([AppEncodeBuffer, ShowPreview],
         Inr ((initial_state sample_options)\<lparr>motion_detected := True, motion_test := True\<rparr>))"
  using no_duplicate_session_start
    [where opts = sample_options
       and tks = "[frame_tick False, frame_tick True, frame_tick False]"
       and s = "(initial_state sample_options)\<lparr>motion_detected := True, motion_test := True\<rparr>"
       and orig = "''out.h264''" and tk = "frame_tick True"]
  by (simp add: frame_tick_def)

lemma transition_start:
  assumes "motion_test s" "\<not> motion_detected s"
  shows "\<exists>evs s'. transition opts orig tk s = (evs, Inr s') \<and> motion_detected s'
          \<and> frame_count s' = minframes_int opts"
  using assms by (simp add: transition_cases start_session_def Let_def)

lemma step_start_hold:
  assumes st: "step opts orig tk s = (evs, Running s')"
    and idle: "\<not> motion_detected s" and rec: "motion_detected s'"
  shows "frame_count s'
           = (if minframes_int opts > 0 then minframes_int opts - 1 else minframes_int opts)"
proof -
  from st obtain u v evt where p:
    "aggregate (gap_int opts) (motion_val tk) s = Inr u"
    "transition opts orig tk u = (evt, Inr v)"
    "s' = (countdown v)\<lparr>count := count v + 1\<rparr>"
    by (blast elim: step_Running_parts)
  from aggregate_Inr(3)[OF p(1)] idle have "\<not> motion_detected u" by simp
  moreover from p(3) rec have "motion_detected v" by simp
  ultimately have "frame_count v = minframes_int opts"
    using p(2)
    by (auto simp: transition_cases start_session_def end_session_def Let_def split: if_splits)
  with p(3) show ?thesis by simp
qed

lemma step_hold_positive:
  assumes st: "step opts orig tk s = (evs, Running s')"
    and rec: "motion_detected s" and pos: "frame_count s > 0"
  shows "motion_detected s' \<and> frame_count s' = frame_count s - 1
        \<and> plain evs \<and> options_output s' = options_output s"
proof -
  from st obtain u v evt where p:
    "aggregate (gap_int opts) (motion_val tk) s = Inr u"
    "transition opts orig tk u = (evt, Inr v)"
    "s' = (countdown v)\<lparr>count := count v + 1\<rparr>"
    "evs = head_events opts tk s @ evt"
    by (blast elim: step_Running_parts)
  from aggregate_Inr(3,4,5)[OF p(1)] rec pos
  have u: "motion_detected u" "frame_count u > 0" "options_output u = options_output s"
    "frame_count u = frame_count s"
    by simp_all
  with p(2) have v: "v = u" "evt = [AppEncodeBuffer, ShowPreview]"
    by (auto simp: transition_cases split: if_splits)
  have "plain evs"
    using plain_head_events[of opts tk s] v p(4) by (simp add: plain_def)
  with u v p(3) show ?thesis by simp
qed

lemma step_hold_zero:
  assumes st: "step opts orig tk s = (evs, Running s')"
    and rec: "motion_detected s" and zero: "frame_count s = 0" and rec': "motion_detected s'"
  shows "frame_count s' = 0"
proof -
  from st obtain u v evt where p:
    "aggregate (gap_int opts) (motion_val tk) s = Inr u"
    "transition opts orig tk u = (evt, Inr v)"
    "s' = (countdown v)\<lparr>count := count v + 1\<rparr>"
    by (blast elim: step_Running_parts)
  from aggregate_Inr(3,4)[OF p(1)] rec zero
  have u: "motion_detected u" "frame_count u = 0" by simp_all
  from p(3) rec' have "motion_detected v" by simp
  with u p(2) have "v = u"
    by (auto simp: transition_cases end_session_def split: if_splits)
  with u p(3) show ?thesis by simp
qed

lemma minframes_int_small:
  assumes "uint (minframes opts) < 2 ^ 31"
  shows "minframes_int opts = uint (minframes opts)"
proof -
  have "- (2 ^ 31) \<le> uint (minframes opts)"
    by (rule order_trans[of _ 0]) simp_all
  with assms have "signed_take_bit 31 (uint (minframes opts)) = uint (minframes opts)"
    by (intro signed_take_bit_int_eq_self)
  then show ?thesis unfolding minframes_int_def sint_uint by simp
qed

lemma minframes_int_large:
  assumes "2 ^ 31 \<le> uint (minframes opts)"
  shows "minframes_int opts < 0"
proof -
  from assms have "signed_take_bit 31 (uint (minframes opts))
      \<le> uint (minframes opts) - 2 ^ Suc 31"
    by (rule signed_take_bit_int_less_eq)
  then have "signed_take_bit 31 (uint (minframes opts)) \<le> uint (minframes opts) - 4294967296"
    by simp
  moreover have "uint (minframes opts) < 4294967296"
    using uint_bounded[of "minframes opts"] by simp
  ultimately have "signed_take_bit 31 (uint (minframes opts)) < 0" by linarith
  then show ?thesis unfolding minframes_int_def sint_uint by simp
qed

lemma step_hold_negative:
  assumes st: "step opts orig tk s = (evs, Running s')"
    and rec: "motion_detected s" and neg: "frame_count s < 0"
  shows "motion_detected s' \<and> frame_count s' = frame_count s \<and> plain evs"
proof -
  from st obtain u v evt where p:
    "aggregate (gap_int opts) (motion_val tk) s = Inr u"
    "transition opts orig tk u = (evt, Inr v)"
    "s' = (countdown v)\<lparr>count := count v + 1\<rparr>"
    "evs = head_events opts tk s @ evt"
    by (blast elim: step_Running_parts)
  from aggregate_Inr(3,4)[OF p(1)] rec neg
  have u: "motion_detected u" "frame_count u < 0" "frame_count u = frame_count s" by simp_all
  with p(2) have v: "v = u" "evt = [AppEncodeBuffer, ShowPreview]"
    by (auto simp: transition_cases split: if_splits)
  have "plain evs"
    using plain_head_events[of opts tk s] v p(4) by (simp add: plain_def)
  with u v p(3) show ?thesis by simp
qed

lemma run_loop_hold:
  "run_loop opts orig s tks = (evs, Running s') \<Longrightarrow> motion_detected s \<Longrightarrow>
   int (length tks) \<le> frame_count s \<Longrightarrow>
     motion_detected s' \<and> frame_count s' = frame_count s - int (length tks) \<and> plain evs
     \<and> options_output s' = options_output s"
proof (induction tks arbitrary: s evs)
  case Nil
  then show ?case by (simp add: plain_def)
next
  case (Cons x xs)
  obtain e r where st: "step opts orig x s = (e, r)" by (cases "step opts orig x s")
  show ?case
  proof (cases r)
    case (Running u)
    obtain e' r' where rl: "run_loop opts orig u xs = (e', r')" by (cases "run_loop opts orig u xs")
    with Cons.prems(1) st Running have eq: "run_loop opts orig u xs = (e', Running s')" "evs = e @ e'"
      by auto
    from Cons.prems(3) have pos: "frame_count s > 0" by simp
    from step_hold_positive[OF st[unfolded Running] Cons.prems(2) pos]
    have u: "motion_detected u" "frame_count u = frame_count s - 1" "plain e"
      "options_output u = options_output s" by simp_all
    from Cons.prems(3) u(2) have "int (length xs) \<le> frame_count u" by simp
    from Cons.IH[OF eq(1) u(1) this] u eq(2) show ?thesis by (simp add: plain_def)
  next
    case Returned
    with Cons.prems st show ?thesis by simp
  next
    case (Failed f)
    with Cons.prems st show ?thesis by simp
  qed
qed

text \<open>
  C3, as amended. For a configured \<open>minframes\<close> below \<open>2^31\<close> the Idle-to-Recording
  branch sets the hold counter \<open>frame_count\<close> to \<open>minframes\<close>. The decrement at the end
  of the iteration runs on that frame too, so the frame of the transition ends with
  \<open>minframes - 1\<close> (with 0 when \<open>minframes\<close> is 0). On every later frame that begins in
  Recording with a positive counter the loop stays in Recording, decrements the counter by
  exactly one, fires neither transition and keeps the output path, whatever the debounced
  vote; a counter that has reached 0 stays 0 while the session lasts. Over a run: from a
  Recording state, as many frames as the counter holds pass without a transition and take
  the counter down by one each.
\<close>

theorem hold_timer:
  "(uint (minframes opts) < 2 ^ 31 \<and> motion_test s \<and> \<not> motion_detected s \<longrightarrow>
      (\<exists>evs s'. transition opts orig tk s = (evs, Inr s') \<and> motion_detected s'
          \<and> frame_count s' = uint (minframes opts)))
   \<and> (uint (minframes opts) < 2 ^ 31 \<and> step opts orig tka sa = (evsa, Running sa')
        \<and> \<not> motion_detected sa \<and> motion_detected sa' \<longrightarrow>
        frame_count sa' = (if minframes opts = 0 then 0 else uint (minframes opts) - 1))
   \<and> (step opts orig tkb sb = (evsb, Running sb') \<and> motion_detected sb \<and> frame_count sb > 0 \<longrightarrow>
        motion_detected sb' \<and> frame_count sb' = frame_count sb - 1
        \<and> plain evsb \<and> options_output sb' = options_output sb)
   \<and> (step opts orig tkc sc = (evsc, Running sc') \<and> motion_detected sc \<and> frame_count sc = 0
        \<and> motion_detected sc' \<longrightarrow> frame_count sc' = 0)
   \<and> (run_loop opts orig sd tks = (evsd, Running sd') \<and> motion_detected sd
        \<and> int (length tks) \<le> frame_count sd \<longrightarrow>
        motion_detected sd' \<and> frame_count sd' = frame_count sd - int (length tks) \<and> plain evsd)"
  (is "?A \<and> ?B \<and> ?C \<and> ?D \<and> ?E")
proof -
  have a: ?A
    using transition_start[of s opts orig tk] minframes_int_small[of opts] by auto
  have b: ?B
  proof
    assume h: "uint (minframes opts) < 2 ^ 31 \<and> step opts orig tka sa = (evsa, Running sa')
        \<and> \<not> motion_detected sa \<and> motion_detected sa'"
    then have m: "minframes_int opts = uint (minframes opts)"
      by (simp add: minframes_int_small)
    have z: "minframes opts = 0 \<longleftrightarrow> uint (minframes opts) = 0" by (simp add: uint_0_iff)
    have nn: "0 \<le> uint (minframes opts)" by simp
    from h step_start_hold[of opts orig tka sa evsa sa'] have
      f: "frame_count sa' = (if uint (minframes opts) > 0 then uint (minframes opts) - 1
                            else uint (minframes opts))"
      unfolding m by blast
    show "frame_count sa' = (if minframes opts = 0 then 0 else uint (minframes opts) - 1)"
    proof (cases "minframes opts = 0")
      case True
      with f show ?thesis by simp
    next
      case False
      with z nn have "uint (minframes opts) > 0" by linarith
      with f False show ?thesis by simp
    qed
  qed
  have c: ?C
    using step_hold_positive[of opts orig tkb sb evsb sb'] by simp
  have d: ?D
    using step_hold_zero[of opts orig tkc sc evsc sc'] by simp
  have e: ?E
    using run_loop_hold[of opts orig sd tks evsd sd'] by blast
  show ?thesis by (rule conjI[OF a conjI[OF b conjI[OF c conjI[OF d e]]]])
qed

theorem hold_timer_witness:
  "uint (minframes sample_options) < 2 ^ 31
   \<and> (motion_test ((initial_state sample_options)\<lparr>motion_test := True\<rparr>)
      \<and> \<not> motion_detected ((initial_state sample_options)\<lparr>motion_test := True\<rparr>))
   \<and> (\<exists>evs s'. transition sample_options ''out.h264'' (frame_tick False)
                    ((initial_state sample_options)\<lparr>motion_test := True\<rparr>) = (evs, Inr s')
          \<and> motion_detected s' \<and> frame_count s' = 1)
   \<and> map_option frame_count (running_state (snd (step sample_options ''out.h264'' (frame_tick True)
          ((initial_state sample_options)\<lparr>motion_test := True\<rparr>)))) = Some 0
   \<and> map_option frame_count (running_state (snd (step sample_options ''out.h264'' (frame_tick False)
          ((initial_state sample_options)\<lparr>motion_detected := True, frame_count := 2\<rparr>)))) = Some 1
   \<and> map_option motion_detected (running_state (snd (step sample_options ''out.h264'' (frame_tick False)
          ((initial_state sample_options)\<lparr>motion_detected := True, frame_count := 2\<rparr>)))) = Some True
   \<and> map_option frame_count (running_state (snd (step sample_options ''out.h264'' (frame_tick True)
          ((initial_state sample_options)\<lparr>motion_detected := True, motion_test := True\<rparr>)))) = Some 0
   \<and> map_option frame_count (running_state (snd (run_loop sample_options ''out.h264''
          ((initial_state sample_options)\<lparr>motion_detected := True, frame_count := 2\<rparr>)
          [frame_tick False, frame_tick False]))) = Some 0
   \<and> map_option motion_detected (running_state (snd (run_loop sample_options ''out.h264''
          ((initial_state sample_options)\<lparr>motion_detected := True, frame_count := 2\<rparr>)
          [frame_tick False, frame_tick False]))) = Some True"
  using hold_timer
    [where opts = sample_options and orig = "''out.h264''"
       and s = "(initial_state sample_options)\<lparr>motion_test := True\<rparr>" and tk = "frame_tick False"
       and sa = "(initial_state sample_options)\<lparr>motion_test := True\<rparr>" and tka = "frame_tick True"
       and evsa = "fst (step sample_options ''out.h264'' (frame_tick True)
                      ((initial_state sample_options)\<lparr>motion_test := True\<rparr>))"
       and sa' = "the (running_state (snd (step sample_options ''out.h264'' (frame_tick True)
                      ((initial_state sample_options)\<lparr>motion_test := True\<rparr>))))"
       and sb = "(initial_state sample_options)\<lparr>motion_detected := True, frame_count := 2\<rparr>"
       and tkb = "frame_tick False"
       and evsb = "fst (step sample_options ''out.h264'' (frame_tick False)
                      ((initial_state sample_options)\<lparr>motion_detected := True, frame_count := 2\<rparr>))"
       and sb' = "the (running_state (snd (step sample_options ''out.h264'' (frame_tick False)
                      ((initial_state sample_options)\<lparr>motion_detected := True, frame_count := 2\<rparr>))))"
       and sc = "(initial_state sample_options)\<lparr>motion_detected := True, motion_test := True\<rparr>"
       and tkc = "frame_tick True"
       and evsc = "fst (step sample_options ''out.h264'' (frame_tick True)
                      ((initial_state sample_options)\<lparr>motion_detected := True, motion_test := True\<rparr>))"
       and sc' = "the (running_state (snd (step sample_options ''out.h264'' (frame_tick True)
                      ((initial_state sample_options)\<lparr>motion_detected := True, motion_test := True\<rparr>))))"
       and sd = "(initial_state sample_options)\<lparr>motion_detected := True, frame_count := 2\<rparr>"
       and tks = "[frame_tick False, frame_tick False]"
       and evsd = "fst (run_loop sample_options ''out.h264''
                      ((initial_state sample_options)\<lparr>motion_detected := True, frame_count := 2\<rparr>)
                      [frame_tick False, frame_tick False])"
       and sd' = "the (running_state (snd (run_loop sample_options ''out.h264''
                      ((initial_state sample_options)\<lparr>motion_detected := True, frame_count := 2\<rparr>)
                      [frame_tick False, frame_tick False])))"]
  by (simp add: loop_defs Let_def)

text \<open>
  C3 as stated fails in two ways. With gap 5, \<open>minframes\<close> 3 and the votes false, false,
  false, false, true, the state after the frame of the transition is Recording with the
  hold counter at 2, not at \<open>minframes\<close>. And with \<open>minframes\<close> \<open>2^31\<close> the \<^verbatim>\<open>int\<close>
  read from the option is \<open>- 2^31\<close>: the counter starts negative, is not decremented and
  does not reach 0, and the state is still Recording after two frames on which the
  debounced vote is false.
\<close>

theorem hold_timer_counterexample:
  "map_option motion_detected (running_state (snd (event_loop
      (sample_options\<lparr>gap := 5, minframes := 3\<rparr>)
      [frame_tick False, frame_tick False, frame_tick False, frame_tick False, frame_tick True])))
     = Some True
   \<and> map_option frame_count (running_state (snd (event_loop
      (sample_options\<lparr>gap := 5, minframes := 3\<rparr>)
      [frame_tick False, frame_tick False, frame_tick False, frame_tick False, frame_tick True])))
     = Some 2
   \<and> map_option frame_count (running_state (snd (event_loop
      (sample_options\<lparr>minframes := 2147483648\<rparr>) [frame_tick False, frame_tick True])))
     = Some (- 2147483648)
   \<and> map_option frame_count (running_state (snd (event_loop
      (sample_options\<lparr>minframes := 2147483648\<rparr>)
      [frame_tick False, frame_tick True, frame_tick False, frame_tick False])))
     = Some (- 2147483648)
   \<and> map_option motion_detected (running_state (snd (event_loop
      (sample_options\<lparr>minframes := 2147483648\<rparr>)
      [frame_tick False, frame_tick True, frame_tick False, frame_tick False])))
     = Some True
   \<and> map_option motion_test (running_state (snd (event_loop
      (sample_options\<lparr>minframes := 2147483648\<rparr>)
      [frame_tick False, frame_tick True, frame_tick False, frame_tick False])))
     = Some False"
  by (simp add: loop_defs Let_def dec.simps)

subsection \<open>The output path\<close>

lemma transition_output:
  assumes t: "transition opts orig tk s = (evs, Inr s')"
    and i: "\<not> motion_detected s \<longrightarrow> options_output s = orig"
    and r: "motion_detected s \<longrightarrow> options_output s \<in> P"
  shows "(\<not> motion_detected s' \<longrightarrow> options_output s' = orig)
       \<and> (motion_detected s' \<longrightarrow> options_output s' \<in> insert (motion_filename opts (localtime tk)) P)"
  using assms
  by (auto simp: transition_cases start_session_def end_session_def Let_def split: if_splits)

lemma step_output:
  assumes st: "step opts orig tk s = (evs, Running s')"
    and i: "\<not> motion_detected s \<longrightarrow> options_output s = orig"
    and r: "motion_detected s \<longrightarrow> options_output s \<in> P"
  shows "(\<not> motion_detected s' \<longrightarrow> options_output s' = orig)
       \<and> (motion_detected s' \<longrightarrow> options_output s' \<in> insert (motion_filename opts (localtime tk)) P)"
proof -
  from st obtain u v evt where p:
    "aggregate (gap_int opts) (motion_val tk) s = Inr u"
    "transition opts orig tk u = (evt, Inr v)"
    "s' = (countdown v)\<lparr>count := count v + 1\<rparr>"
    by (blast elim: step_Running_parts)
  from aggregate_Inr(3,5)[OF p(1)] i r
  have "\<not> motion_detected u \<longrightarrow> options_output u = orig" "motion_detected u \<longrightarrow> options_output u \<in> P"
    by simp_all
  from transition_output[OF p(2) this] p(3) show ?thesis by simp
qed

lemma run_loop_output:
  "run_loop opts orig s tks = (evs, Running s') \<Longrightarrow>
   (\<not> motion_detected s \<longrightarrow> options_output s = orig) \<Longrightarrow>
   (motion_detected s \<longrightarrow> options_output s \<in> P) \<Longrightarrow>
     (\<not> motion_detected s' \<longrightarrow> options_output s' = orig)
     \<and> (motion_detected s' \<longrightarrow>
           options_output s' \<in> P \<union> (\<lambda>t. motion_filename opts (localtime t)) ` set tks)"
proof (induction tks arbitrary: s evs P)
  case Nil
  then show ?case by simp
next
  case (Cons x xs)
  obtain e r where st: "step opts orig x s = (e, r)" by (cases "step opts orig x s")
  show ?case
  proof (cases r)
    case (Running u)
    obtain e' r' where rl: "run_loop opts orig u xs = (e', r')" by (cases "run_loop opts orig u xs")
    with Cons.prems(1) st Running have eq: "run_loop opts orig u xs = (e', Running s')" by auto
    from step_output[OF st[unfolded Running] Cons.prems(2,3)]
    have u: "\<not> motion_detected u \<longrightarrow> options_output u = orig"
      "motion_detected u \<longrightarrow> options_output u \<in> insert (motion_filename opts (localtime x)) P"
      by simp_all
    from Cons.IH[OF eq u] show ?thesis by auto
  next
    case Returned
    with Cons.prems st show ?thesis by simp
  next
    case (Failed f)
    with Cons.prems st show ?thesis by simp
  qed
qed

lemma transition_end:
  assumes "\<not> motion_test s" "motion_detected s" "frame_count s = 0"
  shows "\<exists>evs s'. transition opts orig tk s = (evs, Inr s') \<and> \<not> motion_detected s'
          \<and> options_output s' = orig \<and> OutputCreate orig \<in> set evs"
  using assms by (simp add: transition_cases end_session_def)

text \<open>
  C4, as amended. Between iterations of the event loop: when the state is Idle, the current
  output path is the original one; when it is Recording, the current output path is the
  timestamped path under \<open>savedir\<close> built from the local time of one of the frames
  processed. Hence the current path equals the original one exactly when the state is Idle,
  provided the original path is not itself one of those timestamped paths. The
  Recording-to-Idle branch restores the original path and recreates the output on it.
\<close>

theorem output_path_invariant:
  "(snd (event_loop opts tks) = Running s \<longrightarrow>
      (\<not> motion_detected s \<longrightarrow> options_output s = output_path opts)
      \<and> (motion_detected s \<longrightarrow>
            options_output s \<in> (\<lambda>t. motion_filename opts (localtime t)) ` set tks)
      \<and> (output_path opts \<notin> (\<lambda>t. motion_filename opts (localtime t)) ` set tks \<longrightarrow>
            (options_output s = output_path opts \<longleftrightarrow> \<not> motion_detected s)))
   \<and> (\<not> motion_test sa \<and> motion_detected sa \<and> frame_count sa = 0 \<longrightarrow>
        (\<exists>evs s'. transition opts orig tk sa = (evs, Inr s') \<and> \<not> motion_detected s'
            \<and> options_output s' = orig \<and> OutputCreate orig \<in> set evs))"
proof -
  have a: "snd (event_loop opts tks) = Running s \<longrightarrow>
      (\<not> motion_detected s \<longrightarrow> options_output s = output_path opts)
      \<and> (motion_detected s \<longrightarrow>
            options_output s \<in> (\<lambda>t. motion_filename opts (localtime t)) ` set tks)
      \<and> (output_path opts \<notin> (\<lambda>t. motion_filename opts (localtime t)) ` set tks \<longrightarrow>
            (options_output s = output_path opts \<longleftrightarrow> \<not> motion_detected s))"
  proof
    assume run: "snd (event_loop opts tks) = Running s"
    let ?o = "output_path opts" and ?i = "initial_state opts"
    obtain e0 where r0: "run_loop opts ?o ?i tks = (e0, Running s)"
      using run by (cases "run_loop opts ?o ?i tks") (simp add: event_loop_run_loop)
    have "(\<not> motion_detected s \<longrightarrow> options_output s = ?o)
       \<and> (motion_detected s \<longrightarrow> options_output s \<in> {} \<union> (\<lambda>t. motion_filename opts (localtime t)) ` set tks)"
      by (rule run_loop_output[OF r0]) (simp_all add: initial_state_def)
    then show "(\<not> motion_detected s \<longrightarrow> options_output s = output_path opts)
      \<and> (motion_detected s \<longrightarrow>
            options_output s \<in> (\<lambda>t. motion_filename opts (localtime t)) ` set tks)
      \<and> (output_path opts \<notin> (\<lambda>t. motion_filename opts (localtime t)) ` set tks \<longrightarrow>
            (options_output s = output_path opts \<longleftrightarrow> \<not> motion_detected s))"
      by (simp add: image_iff) metis
  qed
  have b: "\<not> motion_test sa \<and> motion_detected sa \<and> frame_count sa = 0 \<longrightarrow>
        (\<exists>evs s'. transition opts orig tk sa = (evs, Inr s') \<and> \<not> motion_detected s'
            \<and> options_output s' = orig \<and> OutputCreate orig \<in> set evs)"
    using transition_end[of sa opts orig tk] by blast
  show ?thesis by (rule conjI[OF a b])
qed

theorem output_path_invariant_witness:
  "snd (event_loop sample_options [frame_tick False, frame_tick True])
     = Running (the (running_state (snd (event_loop sample_options [frame_tick False, frame_tick True]))))
   \<and> motion_detected (the (running_state (snd (event_loop sample_options [frame_tick False, frame_tick True]))))
   \<and> options_output (the (running_state (snd (event_loop sample_options [frame_tick False, frame_tick True]))))
       = ''d/2026-11-02_21-58-00-motionmov.h264''
   \<and> output_path sample_options
        \<notin> (\<lambda>t. motion_filename sample_options (localtime t)) ` set [frame_tick False, frame_tick True]
   \<and> options_output (the (running_state (snd (event_loop sample_options [frame_tick False, frame_tick True]))))
       \<noteq> output_path sample_options
   \<and> \<not> motion_test ((initial_state sample_options)\<lparr>motion_detected := True\<rparr>)
   \<and> motion_detected ((initial_state sample_options)\<lparr>motion_detected := True\<rparr>)
   \<and> frame_count ((initial_state sample_options)\<lparr>motion_detected := True\<rparr>) = 0
   \<and> (\<exists>evs s'. transition sample_options ''out.h264'' (frame_tick False)
                    ((initial_state sample_options)\<lparr>motion_detected := True\<rparr>) = (evs, Inr s')
          \<and> \<not> motion_detected s' \<and> options_output s' = ''out.h264''
          \<and> OutputCreate ''out.h264'' \<in> set evs)"
  using output_path_invariant
    [where opts = sample_options and tks = "[frame_tick False, frame_tick True]"
       and s = "the (running_state (snd (event_loop sample_options [frame_tick False, frame_tick True])))"
       and sa = "(initial_state sample_options)\<lparr>motion_detected := True\<rparr>"
       and orig = "''out.h264''" and tk = "frame_tick False"]
  by (simp add: loop_defs Let_def dec.simps)

text \<open>
  C4 as stated fails when the original output path is the very name the session start
  builds: with \<open>savedir\<close> \<open>d\<close> and the output option set to
  \<open>d/2026-11-02_21-58-00-motionmov.h264\<close>, a session starting at that second is
  Recording while the current path equals the original one.
\<close>

theorem output_path_counterexample:
  "map_option motion_detected (running_state (snd (event_loop
      (sample_options\<lparr>output_path := ''d/2026-11-02_21-58-00-motionmov.h264'', gap := 1\<rparr>)
      [frame_tick True]))) = Some True
   \<and> map_option options_output (running_state (snd (event_loop
      (sample_options\<lparr>output_path := ''d/2026-11-02_21-58-00-motionmov.h264'', gap := 1\<rparr>)
      [frame_tick True]))) = Some ''d/2026-11-02_21-58-00-motionmov.h264''"
  by (simp add: loop_defs Let_def dec.simps)

lemma two_digits_explicit:
  "n < 100 \<Longrightarrow> two_digits n = [''0123456789'' ! (n div 10), ''0123456789'' ! (n mod 10)]"
proof -
  assume "n < 100"
  then have "n div 10 < 10" by simp
  then have "n div 10 mod 10 = n div 10" by simp
  then show ?thesis by (simp add: two_digits_def digit_def)
qed

lemma dec_four_digits:
  assumes "1000 \<le> y" "y \<le> 9999"
  shows "dec y = [''0123456789'' ! (y div 1000), ''0123456789'' ! (y div 100 mod 10),
                  ''0123456789'' ! (y div 10 mod 10), ''0123456789'' ! (y mod 10)]"
proof -
  have a: "\<not> y < 10" "\<not> y div 10 < 10" "\<not> y div 10 div 10 < 10" "y div 10 div 10 div 10 < 10"
    using assms by simp_all
  have b: "y div 10 div 10 = y div 100" "y div 10 div 10 div 10 = y div 1000"
    by (simp_all add: div_mult2_eq[symmetric])
  have "dec y = dec (y div 10) @ [digit y]" using a(1) by (subst dec.simps) simp
  also have "dec (y div 10) = dec (y div 10 div 10) @ [digit (y div 10)]"
    using a(2) by (subst dec.simps) simp
  also have "dec (y div 10 div 10) = dec (y div 10 div 10 div 10) @ [digit (y div 10 div 10)]"
    using a(3) by (subst dec.simps) simp
  also have "dec (y div 10 div 10 div 10) = [digit (y div 10 div 10 div 10)]"
    using a(4) by (subst dec.simps) simp
  finally have d: "dec y = [digit (y div 10 div 10 div 10), digit (y div 10 div 10),
                  digit (y div 10), digit y]" by simp
  have c: "y div 10 div 10 div 10 mod 10 = y div 1000" "y div 10 div 10 mod 10 = y div 100 mod 10"
    using a(4) by (simp_all only: b mod_less)
  show ?thesis unfolding d digit_def c ..
qed

lemma put_time_explicit:
  assumes "1000 \<le> 1900 + tm_year t" "1900 + tm_year t \<le> 9999" "tm_mon t \<le> 11"
    "tm_mday t \<le> 31" "tm_hour t \<le> 23" "tm_min t \<le> 59" "tm_sec t \<le> 60"
  shows "put_time t =
     [''0123456789'' ! ((1900 + tm_year t) div 1000),
      ''0123456789'' ! ((1900 + tm_year t) div 100 mod 10),
      ''0123456789'' ! ((1900 + tm_year t) div 10 mod 10),
      ''0123456789'' ! ((1900 + tm_year t) mod 10),
      CHR ''-'',
      ''0123456789'' ! ((tm_mon t + 1) div 10), ''0123456789'' ! ((tm_mon t + 1) mod 10),
      CHR ''-'',
      ''0123456789'' ! (tm_mday t div 10), ''0123456789'' ! (tm_mday t mod 10),
      CHR ''_'',
      ''0123456789'' ! (tm_hour t div 10), ''0123456789'' ! (tm_hour t mod 10),
      CHR ''-'',
      ''0123456789'' ! (tm_min t div 10), ''0123456789'' ! (tm_min t mod 10),
      CHR ''-'',
      ''0123456789'' ! (tm_sec t div 10), ''0123456789'' ! (tm_sec t mod 10)]"
proof -
  have "tm_mon t + 1 < 100" "tm_mday t < 100" "tm_hour t < 100" "tm_min t < 100" "tm_sec t < 100"
    using assms by simp_all
  then show ?thesis
    unfolding put_time_def
    by (simp only: two_digits_explicit dec_four_digits[OF assms(1,2)]) simp
qed

text \<open>
  C9. The Idle-to-Recording branch sets the output path to \<open>savedir\<close>, a slash, the local
  time printed by \<^verbatim>\<open>put_time\<close> with the format \<^verbatim>\<open>%Y-%m-%d_%H-%M-%S\<close>, and the constant
  \<open>-motionmov.h264\<close>, and creates the output on that path, whatever the \<open>codec\<close> option
  says. For a local time with a four-digit year and fields in the ranges \<^verbatim>\<open>localtime\<close>
  delivers, the timestamp is, character by character: the four digits of the year, a hyphen,
  the two digits of the month counted from 1, a hyphen, the two digits of the day, an
  underscore, the two digits of the hour, a hyphen, the two digits of the minute, a hyphen,
  the two digits of the second.
\<close>

theorem motion_output_path:
  "(motion_test s \<and> \<not> motion_detected s \<longrightarrow>
     (\<exists>evs s'. transition (opts\<lparr>codec := c\<rparr>) orig tk s = (evs, Inr s')
        \<and> options_output s'
            = savedir opts @ ''/'' @ put_time (localtime tk) @ ''-motionmov.h264''
        \<and> OutputCreate (options_output s') \<in> set evs))
   \<and> (1000 \<le> 1900 + tm_year t \<and> 1900 + tm_year t \<le> 9999 \<and> tm_mon t \<le> 11
        \<and> tm_mday t \<le> 31 \<and> tm_hour t \<le> 23 \<and> tm_min t \<le> 59 \<and> tm_sec t \<le> 60
        \<and> motion_test sa \<and> \<not> motion_detected sa \<longrightarrow>
     (\<exists>evs s'. transition (opts\<lparr>codec := ca\<rparr>) origa (tka\<lparr>localtime := t\<rparr>) sa = (evs, Inr s')
        \<and> options_output s'
            = savedir opts @ ''/''
              @ [''0123456789'' ! ((1900 + tm_year t) div 1000),
                 ''0123456789'' ! ((1900 + tm_year t) div 100 mod 10),
                 ''0123456789'' ! ((1900 + tm_year t) div 10 mod 10),
                 ''0123456789'' ! ((1900 + tm_year t) mod 10),
                 CHR ''-'',
                 ''0123456789'' ! ((tm_mon t + 1) div 10), ''0123456789'' ! ((tm_mon t + 1) mod 10),
                 CHR ''-'',
                 ''0123456789'' ! (tm_mday t div 10), ''0123456789'' ! (tm_mday t mod 10),
                 CHR ''_'',
                 ''0123456789'' ! (tm_hour t div 10), ''0123456789'' ! (tm_hour t mod 10),
                 CHR ''-'',
                 ''0123456789'' ! (tm_min t div 10), ''0123456789'' ! (tm_min t mod 10),
                 CHR ''-'',
                 ''0123456789'' ! (tm_sec t div 10), ''0123456789'' ! (tm_sec t mod 10)]
              @ ''-motionmov.h264''
        \<and> OutputCreate (options_output s') \<in> set evs))"
  (is "?A \<and> (?H \<longrightarrow> ?C)")
proof -
  have a: ?A
    by (simp add: transition_cases start_session_def motion_filename_def Let_def)
  have b: "?H \<longrightarrow> ?C"
  proof
    assume h: ?H
    then have r: "1000 \<le> 1900 + tm_year t" "1900 + tm_year t \<le> 9999" "tm_mon t \<le> 11"
      "tm_mday t \<le> 31" "tm_hour t \<le> 23" "tm_min t \<le> 59" "tm_sec t \<le> 60"
      by simp_all
    let ?o = "opts\<lparr>codec := ca\<rparr>"
    from h have "transition ?o origa (tka\<lparr>localtime := t\<rparr>) sa
        = (fst (start_session ?o t sa), Inr (snd (start_session ?o t sa)))"
      by (simp add: transition_cases)
    moreover have "options_output (snd (start_session ?o t sa))
        = savedir opts @ ''/'' @ put_time t @ ''-motionmov.h264''"
      by (simp add: start_session_def motion_filename_def Let_def)
    moreover have "OutputCreate (options_output (snd (start_session ?o t sa)))
        \<in> set (fst (start_session ?o t sa))"
      by (simp add: start_session_def Let_def)
    ultimately show ?C
      unfolding put_time_explicit[OF r, symmetric] by blast
  qed
  show ?thesis by (rule conjI[OF a b])
qed

theorem motion_output_path_witness:
  "motion_test ((initial_state sample_options)\<lparr>motion_test := True\<rparr>)
   \<and> \<not> motion_detected ((initial_state sample_options)\<lparr>motion_test := True\<rparr>)
   \<and> put_time sample_tm = ''2026-11-02_21-58-00''
   \<and> (\<exists>evs s'. transition (sample_options\<lparr>codec := ''mjpeg''\<rparr>) ''out.h264'' (frame_tick False)
                    ((initial_state sample_options)\<lparr>motion_test := True\<rparr>) = (evs, Inr s')
          \<and> options_output s' = ''d/2026-11-02_21-58-00-motionmov.h264''
          \<and> OutputCreate (options_output s') \<in> set evs)
   \<and> (\<exists>evs s'. transition (sample_options\<lparr>codec := ''yuv420''\<rparr>) ''out.h264''
                    ((frame_tick False)\<lparr>localtime := \<lparr> tm_year = 99, tm_mon = 11, tm_mday = 31,
                        tm_hour = 23, tm_min = 59, tm_sec = 7 \<rparr>\<rparr>)
                    ((initial_state sample_options)\<lparr>motion_test := True\<rparr>) = (evs, Inr s')
          \<and> options_output s' = ''d/1999-12-31_23-59-07-motionmov.h264''
          \<and> OutputCreate (options_output s') \<in> set evs)"
  using motion_output_path
    [where opts = sample_options and c = "''mjpeg''" and orig = "''out.h264''"
       and s = "(initial_state sample_options)\<lparr>motion_test := True\<rparr>" and tk = "frame_tick False"
       and t = "\<lparr> tm_year = 99, tm_mon = 11, tm_mday = 31, tm_hour = 23, tm_min = 59, tm_sec = 7 \<rparr>"
       and ca = "''yuv420''" and origa = "''out.h264''" and tka = "frame_tick False"
       and sa = "(initial_state sample_options)\<lparr>motion_test := True\<rparr>"]
  by (simp add: loop_defs Let_def dec.simps)

subsection \<open>Configuration\<close>

lemma step_gap_zero:
  assumes g: "gap_int opts = 0" and inv: "0 \<le> frame_num s" "\<not> motion_test s" "\<not> motion_detected s"
    and st: "step opts orig tk s = (evs, r)"
  shows "plain evs"
    "r = Running s' \<Longrightarrow> frame_num s' = frame_num s + 1 \<and> \<not> motion_test s' \<and> \<not> motion_detected s'"
proof -
  have nf: "\<not> window_full 0 s" using inv(1) by (simp add: window_full_def)
  have pf: "plain (fst (process_frame opts orig tk s))
      \<and> (snd (process_frame opts orig tk s) = Running s' \<longrightarrow>
            frame_num s' = frame_num s + 1 \<and> \<not> motion_test s' \<and> \<not> motion_detected s')"
  proof (cases "aggregate 0 (motion_val tk) s")
    case (Inl e)
    then show ?thesis using g by (simp add: process_frame_def plain_def)
  next
    case (Inr u)
    from aggregate_Inr(3,8,9)[OF Inr] nf inv
    have u: "\<not> motion_detected u" "frame_num u = frame_num s + 1" "\<not> motion_test u" by simp_all
    then have "transition opts orig tk u =
        (if buffer_ok tk then ([AppEncodeBuffer, ShowPreview], Inr u)
         else ([], Inl (RuntimeError ''no buffer to encode'')))"
      by (simp add: transition_cases)
    with Inr g u show ?thesis by (auto simp: process_frame_def plain_def)
  qed
  show "plain evs"
    using st pf plain_head_events[of opts tk s] plain_halt_events[of opts tk]
    by (cases "msg tk") (auto simp: step_def plain_def split: if_splits prod.splits)
  show "r = Running s' \<Longrightarrow> frame_num s' = frame_num s + 1 \<and> \<not> motion_test s' \<and> \<not> motion_detected s'"
    using st pf by (cases "msg tk") (auto simp: step_def split: if_splits prod.splits)
qed

lemma run_loop_gap_zero:
  "gap_int opts = 0 \<Longrightarrow> 0 \<le> frame_num s \<Longrightarrow> \<not> motion_test s \<Longrightarrow> \<not> motion_detected s \<Longrightarrow>
     plain (fst (run_loop opts orig s tks))
     \<and> (snd (run_loop opts orig s tks) = Running s' \<longrightarrow>
           frame_num s' = frame_num s + int (length tks) \<and> \<not> motion_test s' \<and> \<not> motion_detected s')"
proof (induction tks arbitrary: s)
  case Nil
  then show ?case by (auto simp: plain_def)
next
  case (Cons x xs)
  obtain e r where st: "step opts orig x s = (e, r)" by (cases "step opts orig x s")
  note sg = step_gap_zero[OF Cons.prems st]
  show ?case
  proof (cases r)
    case (Running u)
    from sg(2)[OF Running] have u: "0 \<le> frame_num u" "\<not> motion_test u" "\<not> motion_detected u"
      "frame_num u = frame_num s + 1"
      using Cons.prems(2) by simp_all
    from Cons.IH[OF Cons.prems(1) u(1,2,3)] sg(1) st Running u(4) show ?thesis
      by (auto simp: plain_def split: prod.splits)
  next
    case Returned
    with sg(1) st show ?thesis by simp
  next
    case (Failed f)
    with sg(1) st show ?thesis by simp
  qed
qed

lemma aggregate_run_gap_zero_fired:
  "0 \<le> frame_num s \<Longrightarrow> frame_num s + int (length votes) \<le> 10000 \<Longrightarrow>
     fst (aggregate_run 0 s votes) = replicate (length votes) False"
proof (induction votes arbitrary: s)
  case Nil
  show ?case by simp
next
  case (Cons v vs)
  have nf: "\<not> window_full 0 s" using Cons.prems(1) by (simp add: window_full_def)
  have "\<exists>u. aggregate 0 v s = Inr u"
    using Cons.prems by (simp add: aggregate_def vote_write_def Let_def)
  then obtain u where u: "aggregate 0 v s = Inr u" by blast
  from aggregate_Inr(8)[OF u] nf have fu: "frame_num u = frame_num s + 1" by simp
  with Cons.prems have "0 \<le> frame_num u" "frame_num u + int (length vs) \<le> 10000" by simp_all
  from Cons.IH[OF this] u nf show ?case by (auto split: prod.splits)
qed

lemma sint_gap_zero: "gap opts = 0 \<Longrightarrow> gap_int opts = 0"
  by (simp add: gap_int_def)

lemma main_prog_starts:
  "\<exists>rest. fst (main_prog True opts tks)
      = Cerr ''hello there!'' # (if verbose opts then [PrintOptions] else [])
        @ [OutputCreate (output_path opts), SetEncodeOutputReadyCallback, OpenCamera,
           ConfigureVideo (get_colourspace_flags (codec opts)), StartEncoder, StartCamera]
        @ rest"
proof (cases "snd (run_loop opts (output_path opts) (initial_state opts) tks)")
  case (Running x)
  then show ?thesis by (simp add: main_prog_def event_loop_run_loop)
next
  case Returned
  then show ?thesis by (simp add: main_prog_def event_loop_run_loop)
next
  case (Failed f)
  then show ?thesis by (cases f) (simp_all add: main_prog_def event_loop_run_loop)
qed

lemma run_gap_zero_ok:
  assumes q: "frames opts = 0" "timeout opts = 0" "\<not> keypress opts" "\<not> signal opts"
    and m: "msg tk = RequestComplete" and b: "buffer_ok tk" and g: "gap_int opts = 0"
  shows "0 \<le> frame_num s \<Longrightarrow> frame_num s + int n \<le> 10000 \<Longrightarrow>
     \<exists>evs s'. run_loop opts orig s (replicate n tk) = (evs, Running s')
        \<and> frame_num s' = frame_num s + int n"
proof (induction n arbitrary: s)
  case 0
  then show ?case by simp
next
  case (Suc n)
  from Suc.prems have f: "0 \<le> frame_num s" "frame_num s < 10000" by simp_all
  from Suc.prems g have nf: "\<not> window_full (gap_int opts) s" by (simp add: window_full_def)
  from step_frame_ok[OF q m b f, of orig] nf obtain e u where
    st: "step opts orig tk s = (e, Running u)" "frame_num u = frame_num s + 1" by auto
  from Suc.prems st(2) have "0 \<le> frame_num u" "frame_num u + int n \<le> 10000" by simp_all
  from Suc.IH[OF this] obtain e' s' where
    "run_loop opts orig u (replicate n tk) = (e', Running s')" "frame_num s' = frame_num u + int n"
    by blast
  with st show ?case by simp
qed

text \<open>
  C5, as amended. A \<open>gap\<close> of 0 is not rejected: with a successful parse, \<^verbatim>\<open>main\<close> runs
  the whole start-up sequence (the output is created, the camera opened and configured,
  encoder and camera started) and waits in the event loop for frames. With \<open>gap = 0\<close> no
  window evaluation fires on any of the first 10000 frames, which is as far as the vote
  array reaches: the cursor only counts the frames.
\<close>

theorem gap_zero_accepted:
  "gap opts = 0 \<longrightarrow>
     (\<exists>rest. fst (main_prog True opts tks)
        = Cerr ''hello there!'' # (if verbose opts then [PrintOptions] else [])
          @ [OutputCreate (output_path opts), SetEncodeOutputReadyCallback, OpenCamera,
             ConfigureVideo (get_colourspace_flags (codec opts)), StartEncoder, StartCamera]
          @ rest)
     \<and> snd (main_prog True opts []) = NotTerminated
     \<and> (length votes \<le> 10000 \<longrightarrow>
          fst (aggregate_run (gap_int opts) (initial_state opts) votes)
            = replicate (length votes) False)
     \<and> (length tks \<le> 10000 \<and> snd (event_loop opts tks) = Running s \<longrightarrow>
          frame_num s = int (length tks))"
proof
  assume g: "gap opts = 0"
  then have g0: "gap_int opts = 0" by (rule sint_gap_zero)
  have i: "0 \<le> frame_num (initial_state opts)" "\<not> motion_test (initial_state opts)"
    "\<not> motion_detected (initial_state opts)" "frame_num (initial_state opts) = 0"
    by (simp_all add: initial_state_def)
  have b: "snd (main_prog True opts []) = NotTerminated"
    by (simp add: main_prog_def event_loop_run_loop)
  have c: "length votes \<le> 10000 \<longrightarrow>
          fst (aggregate_run (gap_int opts) (initial_state opts) votes)
            = replicate (length votes) False"
    using aggregate_run_gap_zero_fired[OF i(1), of votes] i(4) g0 by simp
  from run_loop_gap_zero[OF g0 i(1,2,3), of "output_path opts" tks s] i(4)
  have d: "length tks \<le> 10000 \<and> snd (event_loop opts tks) = Running s \<longrightarrow>
          frame_num s = int (length tks)"
    by (simp add: event_loop_run_loop)
  from main_prog_starts[of opts tks] b c d
  show "(\<exists>rest. fst (main_prog True opts tks)
        = Cerr ''hello there!'' # (if verbose opts then [PrintOptions] else [])
          @ [OutputCreate (output_path opts), SetEncodeOutputReadyCallback, OpenCamera,
             ConfigureVideo (get_colourspace_flags (codec opts)), StartEncoder, StartCamera]
          @ rest)
     \<and> snd (main_prog True opts []) = NotTerminated
     \<and> (length votes \<le> 10000 \<longrightarrow>
          fst (aggregate_run (gap_int opts) (initial_state opts) votes)
            = replicate (length votes) False)
     \<and> (length tks \<le> 10000 \<and> snd (event_loop opts tks) = Running s \<longrightarrow>
          frame_num s = int (length tks))"
    by blast
qed

theorem gap_zero_accepted_witness:
  "gap (sample_options\<lparr>gap := 0\<rparr>) = 0
   \<and> fst (main_prog True (sample_options\<lparr>gap := 0\<rparr>) [frame_tick True, frame_tick True])
       = [Cerr ''hello there!'', OutputCreate ''out.h264'', SetEncodeOutputReadyCallback, OpenCamera,
          ConfigureVideo FLAG_VIDEO_NONE, StartEncoder, StartCamera,
          AppEncodeBuffer, ShowPreview, AppEncodeBuffer, ShowPreview]
   \<and> snd (main_prog True (sample_options\<lparr>gap := 0\<rparr>) []) = NotTerminated
   \<and> length [True, True, True] \<le> 10000
   \<and> fst (aggregate_run (gap_int (sample_options\<lparr>gap := 0\<rparr>))
          (initial_state (sample_options\<lparr>gap := 0\<rparr>)) [True, True, True]) = [False, False, False]
   \<and> map_option frame_num (running_state (snd (event_loop (sample_options\<lparr>gap := 0\<rparr>)
          [frame_tick True, frame_tick True]))) = Some 2"
  using gap_zero_accepted
    [where opts = "sample_options\<lparr>gap := 0\<rparr>" and tks = "[frame_tick True, frame_tick True]"
       and votes = "[True, True, True]"
       and s = "the (running_state (snd (event_loop (sample_options\<lparr>gap := 0\<rparr>)
                  [frame_tick True, frame_tick True])))"]
  by (simp add: loop_defs main_prog_def Let_def)

text \<open>
  C5 as stated fails: with \<open>gap = 0\<close> start-up is not aborted. The camera is opened and
  started, a frame is forwarded to the encoder and the preview, and on the quit message the
  program ends with exit code 0. Left running, the loop writes the vote of frame 10001 past
  the end of the array.
\<close>

theorem gap_zero_counterexample:
  "main_prog True (sample_options\<lparr>gap := 0\<rparr>)
     [frame_tick True, (frame_tick True)\<lparr>msg := Quit\<rparr>]
   = ([Cerr ''hello there!'', OutputCreate ''out.h264'', SetEncodeOutputReadyCallback, OpenCamera,
       ConfigureVideo FLAG_VIDEO_NONE, StartEncoder, StartCamera, AppEncodeBuffer, ShowPreview],
      ExitCode 0)
   \<and> snd (event_loop (sample_options\<lparr>gap := 0\<rparr>) (replicate 10001 (frame_tick False)))
       = Failed OutOfBounds"
proof
  show "main_prog True (sample_options\<lparr>gap := 0\<rparr>)
     [frame_tick True, (frame_tick True)\<lparr>msg := Quit\<rparr>]
   = ([Cerr ''hello there!'', OutputCreate ''out.h264'', SetEncodeOutputReadyCallback, OpenCamera,
       ConfigureVideo FLAG_VIDEO_NONE, StartEncoder, StartCamera, AppEncodeBuffer, ShowPreview],
      ExitCode 0)"
    by (simp add: loop_defs main_prog_def Let_def)
next
  let ?o = "sample_options\<lparr>gap := 0\<rparr>" and ?tk = "frame_tick False"
  let ?i = "initial_state ?o"
  have q: "frames ?o = 0" "timeout ?o = 0" "\<not> keypress ?o" "\<not> signal ?o"
    by (simp_all add: sample_options_def)
  have m: "msg ?tk = RequestComplete" and b: "buffer_ok ?tk" by (simp_all add: frame_tick_def)
  have g: "gap_int ?o = 0" by (simp add: gap_int_def sample_options_def)
  have i: "frame_num ?i = 0" by (simp add: initial_state_def)
  from run_gap_zero_ok[OF q m b g, of ?i 10000 "''out.h264''"] i obtain e s where
    s: "run_loop ?o ''out.h264'' ?i (replicate 10000 ?tk) = (e, Running s)" "frame_num s = 10000"
    by auto
  have l: "snd (run_loop ?o ''out.h264'' s [?tk]) = Failed OutOfBounds"
    using step_frame_oob[OF q m, of s "''out.h264''"] s(2)
    by (cases "step ?o ''out.h264'' ?tk s") (auto split: outcome.splits)
  have r: "replicate 10001 ?tk = replicate 10000 ?tk @ [?tk]"
  proof -
    have "replicate (10000 + 1) ?tk = replicate 10000 ?tk @ replicate 1 ?tk"
      by (simp only: replicate_add)
    then show ?thesis by simp
  qed
  have "snd (run_loop ?o ''out.h264'' ?i (replicate 10001 ?tk)) = Failed OutOfBounds"
    unfolding r using run_loop_append_Running[OF s(1), of "[?tk]"] l by simp
  moreover have "output_path ?o = ''out.h264''" by (simp add: sample_options_def)
  ultimately show "snd (event_loop ?o (replicate 10001 ?tk)) = Failed OutOfBounds"
    by (simp add: event_loop_run_loop)
qed

subsection \<open>Leaving the loop\<close>

lemma step_Running_no_StopEncoder:
  assumes "step opts orig tk s = (evs, Running s')"
  shows "StopEncoder \<notin> set evs"
proof -
  from assms obtain u v evt where p:
    "transition opts orig tk u = (evt, Inr v)" "evs = head_events opts tk s @ evt"
    by (blast elim: step_Running_parts)
  from p(1) have "StopEncoder \<notin> set evt"
    by (auto simp: transition_cases start_session_def end_session_def Let_def split: if_splits)
  with p(2) show ?thesis by (simp add: head_events_def)
qed

lemma run_loop_Running_facts:
  "run_loop opts orig s xs = (evs, Running s') \<Longrightarrow>
     StopEncoder \<notin> set evs \<and> (\<forall>t \<in> set xs. msg t = RequestComplete \<and> \<not> timeout_reached opts t)"
proof (induction xs arbitrary: s evs)
  case Nil
  then show ?case by simp
next
  case (Cons x xs)
  obtain e r where st: "step opts orig x s = (e, r)" by (cases "step opts orig x s")
  show ?case
  proof (cases r)
    case (Running u)
    obtain e' r' where rl: "run_loop opts orig u xs = (e', r')" by (cases "run_loop opts orig u xs")
    with Cons.prems st Running have eq: "r' = Running s'" "evs = e @ e'" by auto
    from st Running have a: "StopEncoder \<notin> set e" "msg x = RequestComplete" "\<not> stop_now opts x s"
      using step_Running_no_StopEncoder[of opts orig x s e u] step_Running[of opts orig x s e u]
      by auto
    from Cons.IH[of u e'] rl eq have
      "StopEncoder \<notin> set e' \<and> (\<forall>t \<in> set xs. msg t = RequestComplete \<and> \<not> timeout_reached opts t)"
      by simp
    with a eq show ?thesis by (simp add: stop_now_def)
  next
    case Returned
    with Cons.prems st show ?thesis by simp
  next
    case (Failed f)
    with Cons.prems st show ?thesis by simp
  qed
qed

lemma step_deadline:
  assumes "frames opts = 0" "timeout opts \<noteq> 0" "msg tk = RequestComplete"
    "elapsed tk > timeout opts * 1000000"
  shows "step opts orig tk s = (head_events opts tk s @ halt_events opts tk, Returned)"
    "count_list (head_events opts tk s @ halt_events opts tk) StopCamera = 1"
    "count_list (head_events opts tk s @ halt_events opts tk) StopEncoder = 1"
    "timeout_reached opts tk"
  using assms
  by (simp_all add: step_def stop_now_def timeout_reached_def head_events_def halt_events_def)

lemma event_loop_deadline:
  assumes f: "frames opts = 0" and t: "timeout opts \<noteq> 0" and m: "msg tk = RequestComplete"
    and e: "elapsed tk > timeout opts * 1000000"
    and run: "snd (event_loop opts pre) = Running sp"
  shows "event_loop opts (pre @ tk # rest)
           = (fst (event_loop opts pre) @ head_events opts tk sp @ halt_events opts tk, Returned)
         \<and> count_list (fst (event_loop opts (pre @ tk # rest))) StopEncoder = 1
         \<and> (\<forall>t \<in> set pre. elapsed t \<le> timeout opts * 1000000)"
proof -
  let ?o = "output_path opts" and ?i = "initial_state opts"
  obtain e0 where r0: "run_loop opts ?o ?i pre = (e0, Running sp)"
    using run by (cases "run_loop opts ?o ?i pre") (simp add: event_loop_run_loop)
  note d1 = step_deadline(1)[OF f t m e, of ?o sp] and d3 = step_deadline(3)[OF f t m e, of sp]
  have r1: "run_loop opts ?o sp (tk # rest) = (head_events opts tk sp @ halt_events opts tk, Returned)"
    using d1 by simp
  have r2: "run_loop opts ?o ?i (pre @ tk # rest)
              = (e0 @ head_events opts tk sp @ halt_events opts tk, Returned)"
    using run_loop_append_Running[OF r0, of "tk # rest"] r1 by simp
  from run_loop_Running_facts[OF r0] have
    k: "StopEncoder \<notin> set e0" "\<forall>t \<in> set pre. \<not> timeout_reached opts t" by auto
  have c0: "count_list e0 StopEncoder = 0" using k(1) by (simp add: count_list_0_iff)
  have "\<forall>t \<in> set pre. elapsed t \<le> timeout opts * 1000000"
    using k(2) f t by (auto simp: timeout_reached_def)
  moreover have "count_list (fst (event_loop opts (pre @ tk # rest))) StopEncoder = 1"
    using r2 c0 d3 by (simp add: event_loop_run_loop)
  moreover have "event_loop opts (pre @ tk # rest)
           = (fst (event_loop opts pre) @ head_events opts tk sp @ halt_events opts tk, Returned)"
    using r0 r2 by (simp add: event_loop_run_loop)
  ultimately show ?thesis by blast
qed

text \<open>
  C7. With \<open>frames = 0\<close> and a non-zero \<open>timeout\<close>, an iteration that receives a frame
  after more than \<open>timeout\<close> milliseconds have elapsed returns from the loop in any state,
  Idle or Recording, and on its way calls \<^verbatim>\<open>StopCamera\<close> once and \<^verbatim>\<open>StopEncoder\<close> once.
  For a run of the event loop that is still going after the frames \<open>pre\<close>: the loop
  returns on that iteration and reads no further input, \<^verbatim>\<open>StopEncoder\<close> is called exactly
  once in the whole run, and no earlier iteration had exceeded the timeout, so the exit is
  on the first iteration that does.
\<close>

theorem deadline_termination:
  "(frames opts = 0 \<and> timeout opts \<noteq> 0 \<and> msg tk = RequestComplete
      \<and> elapsed tk > timeout opts * 1000000 \<longrightarrow>
      step opts orig tk s = (head_events opts tk s @ halt_events opts tk, Returned)
      \<and> count_list (head_events opts tk s @ halt_events opts tk) StopCamera = 1
      \<and> count_list (head_events opts tk s @ halt_events opts tk) StopEncoder = 1)
   \<and> (frames opts = 0 \<and> timeout opts \<noteq> 0 \<and> msg tk = RequestComplete
      \<and> elapsed tk > timeout opts * 1000000 \<and> snd (event_loop opts pre) = Running sp \<longrightarrow>
      event_loop opts (pre @ tk # rest)
        = (fst (event_loop opts pre) @ head_events opts tk sp @ halt_events opts tk, Returned)
      \<and> count_list (fst (event_loop opts (pre @ tk # rest))) StopEncoder = 1
      \<and> (\<forall>t \<in> set pre. elapsed t \<le> timeout opts * 1000000))"
proof -
  have a: "frames opts = 0 \<and> timeout opts \<noteq> 0 \<and> msg tk = RequestComplete
      \<and> elapsed tk > timeout opts * 1000000 \<longrightarrow>
      step opts orig tk s = (head_events opts tk s @ halt_events opts tk, Returned)
      \<and> count_list (head_events opts tk s @ halt_events opts tk) StopCamera = 1
      \<and> count_list (head_events opts tk s @ halt_events opts tk) StopEncoder = 1"
    using step_deadline(1)[of opts tk orig s] step_deadline(2)[of opts tk s]
      step_deadline(3)[of opts tk s] by blast
  have b: "frames opts = 0 \<and> timeout opts \<noteq> 0 \<and> msg tk = RequestComplete
      \<and> elapsed tk > timeout opts * 1000000 \<and> snd (event_loop opts pre) = Running sp \<longrightarrow>
      event_loop opts (pre @ tk # rest)
        = (fst (event_loop opts pre) @ head_events opts tk sp @ halt_events opts tk, Returned)
      \<and> count_list (fst (event_loop opts (pre @ tk # rest))) StopEncoder = 1
      \<and> (\<forall>t \<in> set pre. elapsed t \<le> timeout opts * 1000000)"
    using event_loop_deadline[of opts tk pre sp rest] by blast
  show ?thesis by (rule conjI[OF a b])
qed

theorem deadline_termination_witness:
  "frames (sample_options\<lparr>timeout := 1000\<rparr>) = 0
   \<and> timeout (sample_options\<lparr>timeout := 1000\<rparr>) \<noteq> 0
   \<and> msg ((frame_tick False)\<lparr>elapsed := 1000000001\<rparr>) = RequestComplete
   \<and> elapsed ((frame_tick False)\<lparr>elapsed := 1000000001\<rparr>)
        > timeout (sample_options\<lparr>timeout := 1000\<rparr>) * 1000000
   \<and> map_option motion_detected (running_state (snd (event_loop (sample_options\<lparr>timeout := 1000\<rparr>)
          [frame_tick False, frame_tick True]))) = Some True
   \<and> step (sample_options\<lparr>timeout := 1000\<rparr>) ''out.h264''
         ((frame_tick False)\<lparr>elapsed := 1000000001\<rparr>) (initial_state sample_options)
       = ([Cerr ''Halting: reached timeout of 1000 milliseconds.'', StopCamera, StopEncoder], Returned)
   \<and> event_loop (sample_options\<lparr>timeout := 1000\<rparr>)
         ([frame_tick False, frame_tick True] @ (frame_tick False)\<lparr>elapsed := 1000000001\<rparr>
            # [frame_tick True])
       = (fst (event_loop (sample_options\<lparr>timeout := 1000\<rparr>) [frame_tick False, frame_tick True])
            @ [Cerr ''Halting: reached timeout of 1000 milliseconds.'', StopCamera, StopEncoder],
          Returned)
   \<and> count_list (fst (event_loop (sample_options\<lparr>timeout := 1000\<rparr>)
         ([frame_tick False, frame_tick True] @ (frame_tick False)\<lparr>elapsed := 1000000001\<rparr>
            # [frame_tick True]))) StopEncoder = 1"
  using deadline_termination
    [where opts = "sample_options\<lparr>timeout := 1000\<rparr>"
       and tk = "(frame_tick False)\<lparr>elapsed := 1000000001\<rparr>"
       and orig = "''out.h264''" and s = "initial_state sample_options"
       and pre = "[frame_tick False, frame_tick True]" and rest = "[frame_tick True]"
       and sp = "the (running_state (snd (event_loop (sample_options\<lparr>timeout := 1000\<rparr>)
                   [frame_tick False, frame_tick True])))"]
  by (simp add: loop_defs Let_def dec.simps)

lemma newline_same_as_no_key:
  assumes k: "key_of opts tk = 10" and m: "msg tk = RequestComplete"
  shows "step opts orig tk s =
           (OutputSignal # fst (step opts orig (tk\<lparr>poll_in := None, signal_received := NoSignal\<rparr>) s),
            snd (step opts orig (tk\<lparr>poll_in := None, signal_received := NoSignal\<rparr>) s))"
proof -
  let ?tk0 = "tk\<lparr>poll_in := None, signal_received := NoSignal\<rparr>"
  have k0: "key_of opts ?tk0 = 0" by (simp add: key_of_cases)
  have he: "head_events opts tk s = OutputSignal # head_events opts ?tk0 s"
    using k k0 by (simp add: head_events_def)
  have sn: "stop_now opts tk s = stop_now opts ?tk0 s"
    using k k0 by (simp add: stop_now_def timeout_reached_def)
  have ha: "halt_events opts tk = halt_events opts ?tk0"
    by (simp add: halt_events_def timeout_reached_def)
  have tr: "transition opts orig tk u = transition opts orig ?tk0 u" for u
    by (simp add: transition_cases)
  have pf: "process_frame opts orig tk s = process_frame opts orig ?tk0 s"
    unfolding process_frame_def tr by (simp add: motion_val_def)
  show ?thesis
    using m he sn ha pf by (simp add: step_def split: prod.splits)
qed

lemma newline_runs_frame:
  assumes k: "key_of opts tk = 10" and m: "msg tk = RequestComplete"
    and nt: "\<not> timeout_reached opts tk" and nf: "\<not> frameout_reached opts s"
  shows "step opts orig tk s =
           (head_events opts tk s @ fst (process_frame opts orig tk s),
            snd (process_frame opts orig tk s))
         \<and> take 1 (head_events opts tk s) = [OutputSignal]"
  using assms by (simp add: step_def stop_now_def head_events_def split: prod.splits)

lemma key_stop_only_x:
  assumes m: "msg tk = RequestComplete" and r: "snd (step opts orig tk s) = Returned"
    and nt: "\<not> timeout_reached opts tk" and nf: "\<not> frameout_reached opts s"
  shows "key_of opts tk = 120 \<or> key_of opts tk = 88"
proof (rule ccontr)
  assume "\<not> ?thesis"
  with nt nf have ns: "\<not> stop_now opts tk s" by (simp add: stop_now_def)
  obtain evs r' where pf: "process_frame opts orig tk s = (evs, r')"
    by (cases "process_frame opts orig tk s")
  then have "r' \<noteq> Returned"
    by (auto simp: process_frame_def split: sum.splits prod.splits)
  with m ns pf r show False by (simp add: step_def)
qed

text \<open>
  C10. The key resolves to newline on SIGUSR1 with \<open>signal\<close> enabled, and on a newline as
  the first character read from stdin with \<open>keypress\<close> enabled (no signal pending). On an
  iteration whose key is newline the loop calls \<^verbatim>\<open>output->Signal()\<close> and then does exactly
  what it does on the same frame with no key at all; when no deadline is due this is the
  vote aggregation and the state machine for the frame. An iteration on which neither the
  timeout nor the frame limit is reached returns only when the key is \<open>x\<close> or \<open>X\<close>.
\<close>

theorem newline_key_does_not_stop:
  "(signal opts \<and> signal_received tk = SIGUSR1 \<longrightarrow> key_of opts tk = 10)
   \<and> (keypress opts \<and> poll_in tkz = Some 10 \<and> (signal opts \<longrightarrow> signal_received tkz = NoSignal)
        \<longrightarrow> key_of opts tkz = 10)
   \<and> (key_of opts tka = 10 \<and> msg tka = RequestComplete \<longrightarrow>
        step opts orig tka sa =
          (OutputSignal # fst (step opts orig (tka\<lparr>poll_in := None, signal_received := NoSignal\<rparr>) sa),
           snd (step opts orig (tka\<lparr>poll_in := None, signal_received := NoSignal\<rparr>) sa)))
   \<and> (key_of opts tkb = 10 \<and> msg tkb = RequestComplete \<and> \<not> timeout_reached opts tkb
        \<and> \<not> frameout_reached opts sb \<longrightarrow>
        step opts orig tkb sb =
          (head_events opts tkb sb @ fst (process_frame opts orig tkb sb),
           snd (process_frame opts orig tkb sb))
        \<and> take 1 (head_events opts tkb sb) = [OutputSignal])
   \<and> (msg tkc = RequestComplete \<and> snd (step opts orig tkc sc) = Returned
        \<and> \<not> timeout_reached opts tkc \<and> \<not> frameout_reached opts sc \<longrightarrow>
        key_of opts tkc = 120 \<or> key_of opts tkc = 88)"
proof -
  have a: "signal opts \<and> signal_received tk = SIGUSR1 \<longrightarrow> key_of opts tk = 10"
    by (simp add: key_of_cases)
  have b: "keypress opts \<and> poll_in tkz = Some 10 \<and> (signal opts \<longrightarrow> signal_received tkz = NoSignal)
        \<longrightarrow> key_of opts tkz = 10"
    by (simp add: key_of_cases)
  have c: "key_of opts tka = 10 \<and> msg tka = RequestComplete \<longrightarrow>
        step opts orig tka sa =
          (OutputSignal # fst (step opts orig (tka\<lparr>poll_in := None, signal_received := NoSignal\<rparr>) sa),
           snd (step opts orig (tka\<lparr>poll_in := None, signal_received := NoSignal\<rparr>) sa))"
    using newline_same_as_no_key[of opts tka orig sa] by blast
  have d: "key_of opts tkb = 10 \<and> msg tkb = RequestComplete \<and> \<not> timeout_reached opts tkb
        \<and> \<not> frameout_reached opts sb \<longrightarrow>
        step opts orig tkb sb =
          (head_events opts tkb sb @ fst (process_frame opts orig tkb sb),
           snd (process_frame opts orig tkb sb))
        \<and> take 1 (head_events opts tkb sb) = [OutputSignal]"
    using newline_runs_frame[of opts tkb sb orig] by blast
  have e: "msg tkc = RequestComplete \<and> snd (step opts orig tkc sc) = Returned
        \<and> \<not> timeout_reached opts tkc \<and> \<not> frameout_reached opts sc \<longrightarrow>
        key_of opts tkc = 120 \<or> key_of opts tkc = 88"
    using key_stop_only_x[of tkc opts orig sc] by blast
  show ?thesis by (rule conjI[OF a conjI[OF b conjI[OF c conjI[OF d e]]]])
qed

theorem newline_key_does_not_stop_witness:
  "signal (sample_options\<lparr>keypress := True, signal := True\<rparr>)
   \<and> keypress (sample_options\<lparr>keypress := True, signal := True\<rparr>)
   \<and> key_of (sample_options\<lparr>keypress := True, signal := True\<rparr>)
        ((frame_tick False)\<lparr>signal_received := SIGUSR1\<rparr>) = 10
   \<and> key_of (sample_options\<lparr>keypress := True, signal := True\<rparr>)
        ((frame_tick False)\<lparr>poll_in := Some 10\<rparr>) = 10
   \<and> fst (step (sample_options\<lparr>keypress := True, signal := True\<rparr>) ''out.h264''
          ((frame_tick False)\<lparr>poll_in := Some 10\<rparr>) (initial_state sample_options))
       = [OutputSignal, AppEncodeBuffer, ShowPreview]
   \<and> map_option frame_num (running_state (snd (step (sample_options\<lparr>keypress := True, signal := True\<rparr>)
          ''out.h264'' ((frame_tick False)\<lparr>poll_in := Some 10\<rparr>) (initial_state sample_options))))
       = Some 1
   \<and> snd (step (sample_options\<lparr>keypress := True, signal := True\<rparr>) ''out.h264''
          ((frame_tick False)\<lparr>poll_in := Some 120\<rparr>) (initial_state sample_options)) = Returned
   \<and> key_of (sample_options\<lparr>keypress := True, signal := True\<rparr>)
        ((frame_tick False)\<lparr>poll_in := Some 120\<rparr>) = 120"
  using newline_key_does_not_stop
    [where opts = "sample_options\<lparr>keypress := True, signal := True\<rparr>" and orig = "''out.h264''"
       and tk = "(frame_tick False)\<lparr>signal_received := SIGUSR1\<rparr>"
       and tkz = "(frame_tick False)\<lparr>poll_in := Some 10\<rparr>"
       and tka = "(frame_tick False)\<lparr>poll_in := Some 10\<rparr>" and sa = "initial_state sample_options"
       and tkb = "(frame_tick False)\<lparr>poll_in := Some 10\<rparr>" and sb = "initial_state sample_options"
       and tkc = "(frame_tick False)\<lparr>poll_in := Some 120\<rparr>" and sc = "initial_state sample_options"]
  by (simp add: loop_defs Let_def dec.simps)

end
